theory Spec2Isabelle
  imports Complex_Main "HOL-Library.Sublist" "HOL-Library.Multiset"
begin

section \<open>Order form: menu availability and estimated wait\<close>

text \<open>
  The order form (\<^verbatim>\<open>OrderForm\<close>) receives the menu of one event. Of a menu item the
  computations below read the identifier, the preparation time
  (\<^verbatim>\<open>prep_time_minutes?: number | null\<close>, an integer column written with
  \<^verbatim>\<open>parseInt\<close>) and the two exclusivity flags (\<^verbatim>\<open>dine_in_only?: boolean\<close>,
  \<^verbatim>\<open>pickup_only?: boolean\<close>); an absent or null field is \<open>None\<close>.
\<close>

record MenuItem =
  item_id :: string
  item_name :: string
  category :: string
  prep_time_minutes :: "int option"
  dine_in_only :: "bool option"
  pickup_only :: "bool option"

datatype OrderType = DineIn | Pickup

text \<open>The operator \<^verbatim>\<open>x ?? d\<close>: the default replaces an absent value.\<close>

definition nullish :: "'a option \<Rightarrow> 'a \<Rightarrow> 'a" where
  "nullish x d = (case x of None \<Rightarrow> d | Some v \<Rightarrow> v)"

text \<open>
  \<^verbatim>\<open>
  const filteredMenuItems = menuItems.filter((item) => {
    const dineIn = item.dine_in_only ?? false;
    const pickup = item.pickup_only ?? false;
    if (orderType === "dine_in") return !pickup;
    return !dineIn;
  });
  \<close>
\<close>

definition keepForOrderType :: "OrderType \<Rightarrow> MenuItem \<Rightarrow> bool" where
  "keepForOrderType orderType item =
     (let dineIn = nullish (dine_in_only item) False;
          pickup = nullish (pickup_only item) False
      in if orderType = DineIn then \<not> pickup else \<not> dineIn)"

definition filteredMenuItems :: "OrderType \<Rightarrow> MenuItem list \<Rightarrow> MenuItem list" where
  "filteredMenuItems orderType menuItems = filter (keepForOrderType orderType) menuItems"

text \<open>
  \<^verbatim>\<open>
  filteredMenuItems.forEach((item) => {
    const qty = quantities[item.id] ?? 0;
    if (qty > 0) { ...; lineItems.push({ item, qty, unitPrice }); }
  });
  \<close>
  The quantities are a \<^verbatim>\<open>Record<string, number>\<close> of counters. The unit price (a
  double, possibly parsed from a string) plays no part in the wait estimate and is left
  out of the line item.
\<close>

definition lineItems :: "(string \<rightharpoonup> int) \<Rightarrow> MenuItem list \<Rightarrow> (MenuItem \<times> int) list" where
  "lineItems quantities filtered =
     concat (map (\<lambda>item. let qty = nullish (quantities (item_id item)) 0
                          in if qty > 0 then [(item, qty)] else []) filtered)"

text \<open>
  \<^verbatim>\<open>
  const prepTimes = lineItems
    .map(({ item }) => item.prep_time_minutes)
    .filter((m): m is number => typeof m === "number" && m > 0);
  const estimatedWaitMinutes =
    prepTimes.length > 0 ? Math.max(...prepTimes) : undefined;
  \<close>
\<close>

definition isPositiveNumber :: "int option \<Rightarrow> bool" where
  "isPositiveNumber m = (case m of None \<Rightarrow> False | Some v \<Rightarrow> v > 0)"

definition prepTimes :: "(MenuItem \<times> int) list \<Rightarrow> int list" where
  "prepTimes lis =
     map (\<lambda>m. nullish m 0) (filter isPositiveNumber (map (\<lambda>(item, qty). prep_time_minutes item) lis))"

text \<open>\<^verbatim>\<open>Math.max\<close> of a non-empty argument list; the source calls it on no other.\<close>

fun mathMax :: "int \<Rightarrow> int list \<Rightarrow> int" where
  "mathMax m [] = m"
| "mathMax m (x # xs) = mathMax (max m x) xs"

definition estimatedWaitMinutes :: "(MenuItem \<times> int) list \<Rightarrow> int option" where
  "estimatedWaitMinutes lis =
     (case prepTimes lis of [] \<Rightarrow> None | p # ps \<Rightarrow> Some (mathMax p ps))"

text \<open>The set of positive preparation times among the selected items.\<close>

definition positivePrepTimes :: "(MenuItem \<times> int) list \<Rightarrow> int set" where
  "positivePrepTimes lis = {m. \<exists>item qty. (item, qty) \<in> set lis \<and> prep_time_minutes item = Some m \<and> m > 0}"

section \<open>JavaScript values used by the event list\<close>

text \<open>
  A string is a list of UTF-16 code units; the model has the code units below 256
  (\<^typ>\<open>char\<close>). White space, as \<^verbatim>\<open>String.prototype.trim\<close>, the regular expression
  class \<^verbatim>\<open>\s\<close> and \<^verbatim>\<open>parseInt\<close> see it, is in that range: tab, line feed,
  vertical tab, form feed, carriage return, space and no-break space.
\<close>

definition isWhiteSpace :: "char \<Rightarrow> bool" where
  "isWhiteSpace c = (of_char c \<in> {9, 10, 11, 12, 13, 32, 160 :: nat})"

definition isDigit :: "char \<Rightarrow> bool" where
  "isDigit c = (48 \<le> (of_char c :: nat) \<and> (of_char c :: nat) \<le> 57)"

text \<open>
  A number is a double: a finite value (read as the real it denotes; the two zeros are
  one value, as they are for \<^verbatim>\<open>==\<close>), one of the two infinities, or NaN.
\<close>

datatype jsnumber = Num real | PosInfinity | NegInfinity | NaN

fun neg :: "jsnumber \<Rightarrow> jsnumber" where
  "neg (Num a) = Num (- a)"
| "neg PosInfinity = NegInfinity"
| "neg NegInfinity = PosInfinity"
| "neg NaN = NaN"

text \<open>
  The operator \<^verbatim>\<open>a - b\<close> of the sort comparison, by its sign. The operands there are
  doubles, and the rounded difference of two doubles has the sign of their exact
  difference (a difference of doubles does not underflow to zero, and an overflow
  keeps the sign); the comparison result is only tested for \<^verbatim>\<open>> 0\<close>.
\<close>

fun sub :: "jsnumber \<Rightarrow> jsnumber \<Rightarrow> jsnumber" where
  "sub NaN _ = NaN"
| "sub _ NaN = NaN"
| "sub (Num a) (Num b) = Num (a - b)"
| "sub (Num a) PosInfinity = NegInfinity"
| "sub (Num a) NegInfinity = PosInfinity"
| "sub PosInfinity (Num b) = PosInfinity"
| "sub NegInfinity (Num b) = NegInfinity"
| "sub PosInfinity NegInfinity = PosInfinity"
| "sub NegInfinity PosInfinity = NegInfinity"
| "sub PosInfinity PosInfinity = NaN"
| "sub NegInfinity NegInfinity = NaN"

text \<open>The operator \<^verbatim>\<open>a <= b\<close>: false as soon as one side is NaN.\<close>

fun lessEq :: "jsnumber \<Rightarrow> jsnumber \<Rightarrow> bool" where
  "lessEq NaN _ = False"
| "lessEq _ NaN = False"
| "lessEq (Num a) (Num b) = (a \<le> b)"
| "lessEq NegInfinity _ = True"
| "lessEq _ PosInfinity = True"
| "lessEq PosInfinity _ = False"
| "lessEq _ NegInfinity = False"

text \<open>The operator \<^verbatim>\<open>a == b\<close> on numbers: NaN equals nothing, not even itself.\<close>

definition equalsNumber :: "jsnumber \<Rightarrow> jsnumber \<Rightarrow> bool" where
  "equalsNumber a b = (a \<noteq> NaN \<and> b \<noteq> NaN \<and> a = b)"

text \<open>The test \<^verbatim>\<open>v > 0\<close>.\<close>

fun isPositive :: "jsnumber \<Rightarrow> bool" where
  "isPositive (Num v) = (v > 0)"
| "isPositive PosInfinity = True"
| "isPositive NegInfinity = False"
| "isPositive NaN = False"

text \<open>
  The Number value of a non-negative integer: the nearest double, ties to the even
  significand, and \<^verbatim>\<open>Infinity\<close> from \<open>2^1024 - 2^970\<close> on. An integer of at most 53 bits
  is a double itself.
\<close>

fun bitLength :: "nat \<Rightarrow> nat" where
  "bitLength n = (if n = 0 then 0 else Suc (bitLength (n div 2)))"

declare bitLength.simps [simp del]

definition numberOfNat :: "nat \<Rightarrow> jsnumber" where
  "numberOfNat n =
     (let bits = bitLength n
      in if bits \<le> 53 then Num (real n)
         else (let shift = bits - 53;
                   q = n div 2 ^ shift;
                   r = n mod 2 ^ shift;
                   half = 2 ^ (shift - 1);
                   q' = (if r > half \<or> (r = half \<and> odd q) then q + 1 else q)
               in if q' * 2 ^ shift \<ge> 2 ^ 1024 then PosInfinity
                  else Num (real (q' * 2 ^ shift))))"

text \<open>
  \<^verbatim>\<open>parseInt(s, 10)\<close>: leading white space is skipped, then an optional sign, then the
  longest run of decimal digits; no digit gives NaN, otherwise the result is the Number
  value of the integer the digits denote. (Past the twentieth significant digit an
  implementation may read the digits as zeros; the properties below speak of the
  number that results, whatever it is, and the radius control offers 10, 25, 50, 100.)
\<close>

fun digitsValue :: "nat \<Rightarrow> string \<Rightarrow> nat" where
  "digitsValue acc [] = acc"
| "digitsValue acc (c # cs) = digitsValue (10 * acc + (of_char c - 48)) cs"

definition parseInt :: "string \<Rightarrow> jsnumber" where
  "parseInt inputString =
     (let s = dropWhile isWhiteSpace inputString;
          negative = (case s of c # _ \<Rightarrow> c = CHR ''-'' | [] \<Rightarrow> False);
          s' = (case s of c # r \<Rightarrow> if c = CHR ''-'' \<or> c = CHR ''+'' then r else s | [] \<Rightarrow> s);
          z = takeWhile isDigit s'
      in if z = [] then NaN
         else if negative then neg (numberOfNat (digitsValue 0 z))
         else numberOfNat (digitsValue 0 z))"

text \<open>
  \<^verbatim>\<open>Array.prototype.sort(comparefn)\<close>. The sort is stable, and an element \<open>x\<close> goes
  after \<open>y\<close> only when \<^verbatim>\<open>comparefn(x, y) > 0\<close>; a NaN from the comparison counts as
  zero. With a consistent comparison the result of every stable sort is the same, so
  the model is the insertion sort that keeps equal elements in their order.
\<close>

fun insertSorted :: "('a \<Rightarrow> 'a \<Rightarrow> jsnumber) \<Rightarrow> 'a \<Rightarrow> 'a list \<Rightarrow> 'a list" where
  "insertSorted comparefn x [] = [x]"
| "insertSorted comparefn x (y # ys) =
     (if isPositive (comparefn x y) then y # insertSorted comparefn x ys else x # y # ys)"

definition arraySort :: "('a \<Rightarrow> 'a \<Rightarrow> jsnumber) \<Rightarrow> 'a list \<Rightarrow> 'a list" where
  "arraySort comparefn xs = foldr (insertSorted comparefn) xs []"

section \<open>Double arithmetic and the haversine distance\<close>

text \<open>
  The arithmetic of doubles has two parts the language leaves to the machine and the
  implementation: the rounding of an exact result to a double (\<open>toDouble\<close>; it may give
  an infinity), and the values of \<^verbatim>\<open>Math.sin\<close>, \<^verbatim>\<open>Math.cos\<close>, \<^verbatim>\<open>Math.sqrt\<close> and
  \<^verbatim>\<open>Math.atan2\<close>, which are implementation-approximated. They are the fields of a
  record; everything the language fixes (NaN and the infinities in the four operators,
  the arguments for which a \<^verbatim>\<open>Math\<close> function is NaN, and its exact results at zero) is
  written out below.
\<close>

record Arith =
  toDouble :: "real \<Rightarrow> jsnumber"
  sinImpl :: "real \<Rightarrow> real"
  cosImpl :: "real \<Rightarrow> real"
  sqrtImpl :: "real \<Rightarrow> real"
  atan2Impl :: "jsnumber \<Rightarrow> jsnumber \<Rightarrow> real"

text \<open>The operators \<^verbatim>\<open>a + b\<close>, \<^verbatim>\<open>a - b\<close>, \<^verbatim>\<open>a * b\<close> and \<^verbatim>\<open>a / b\<close>, with rounding.\<close>

fun plusDouble :: "Arith \<Rightarrow> jsnumber \<Rightarrow> jsnumber \<Rightarrow> jsnumber" where
  "plusDouble M NaN _ = NaN"
| "plusDouble M _ NaN = NaN"
| "plusDouble M (Num a) (Num b) = toDouble M (a + b)"
| "plusDouble M PosInfinity NegInfinity = NaN"
| "plusDouble M NegInfinity PosInfinity = NaN"
| "plusDouble M PosInfinity _ = PosInfinity"
| "plusDouble M NegInfinity _ = NegInfinity"
| "plusDouble M _ PosInfinity = PosInfinity"
| "plusDouble M _ NegInfinity = NegInfinity"

definition minusDouble :: "Arith \<Rightarrow> jsnumber \<Rightarrow> jsnumber \<Rightarrow> jsnumber" where
  "minusDouble M a b = plusDouble M a (neg b)"

fun timesDouble :: "Arith \<Rightarrow> jsnumber \<Rightarrow> jsnumber \<Rightarrow> jsnumber" where
  "timesDouble M NaN _ = NaN"
| "timesDouble M _ NaN = NaN"
| "timesDouble M (Num a) (Num b) = toDouble M (a * b)"
| "timesDouble M (Num a) PosInfinity =
     (if a = 0 then NaN else if a > 0 then PosInfinity else NegInfinity)"
| "timesDouble M (Num a) NegInfinity =
     (if a = 0 then NaN else if a > 0 then NegInfinity else PosInfinity)"
| "timesDouble M PosInfinity (Num b) =
     (if b = 0 then NaN else if b > 0 then PosInfinity else NegInfinity)"
| "timesDouble M NegInfinity (Num b) =
     (if b = 0 then NaN else if b > 0 then NegInfinity else PosInfinity)"
| "timesDouble M PosInfinity PosInfinity = PosInfinity"
| "timesDouble M NegInfinity NegInfinity = PosInfinity"
| "timesDouble M PosInfinity NegInfinity = NegInfinity"
| "timesDouble M NegInfinity PosInfinity = NegInfinity"

text \<open>
  A zero divisor is taken as \<open>+0\<close>; the distance formula divides by 180 and by 2 only.
\<close>

fun divideDouble :: "Arith \<Rightarrow> jsnumber \<Rightarrow> jsnumber \<Rightarrow> jsnumber" where
  "divideDouble M NaN _ = NaN"
| "divideDouble M _ NaN = NaN"
| "divideDouble M (Num a) (Num b) =
     (if b = 0 then (if a = 0 then NaN else if a > 0 then PosInfinity else NegInfinity)
      else toDouble M (a / b))"
| "divideDouble M (Num a) PosInfinity = Num 0"
| "divideDouble M (Num a) NegInfinity = Num 0"
| "divideDouble M PosInfinity (Num b) = (if b \<ge> 0 then PosInfinity else NegInfinity)"
| "divideDouble M NegInfinity (Num b) = (if b \<ge> 0 then NegInfinity else PosInfinity)"
| "divideDouble M PosInfinity _ = NaN"
| "divideDouble M NegInfinity _ = NaN"

text \<open>
  \<^verbatim>\<open>Math.sin\<close> and \<^verbatim>\<open>Math.cos\<close> are NaN at NaN and at the infinities, and exact at
  zero. \<^verbatim>\<open>Math.sqrt\<close> is NaN at NaN and below zero, exact at zero and at \<^verbatim>\<open>Infinity\<close>.
  \<^verbatim>\<open>Math.atan2(y, x)\<close> is NaN when an argument is, zero when \<open>y\<close> is zero and \<open>x\<close>
  positive, and a finite number otherwise.
\<close>

definition Math_PI :: jsnumber where
  "Math_PI = Num (884279719003555 / 281474976710656)"

definition Math_sin :: "Arith \<Rightarrow> jsnumber \<Rightarrow> jsnumber" where
  "Math_sin M v = (case v of Num x \<Rightarrow> if x = 0 then Num 0 else Num (sinImpl M x) | _ \<Rightarrow> NaN)"

definition Math_cos :: "Arith \<Rightarrow> jsnumber \<Rightarrow> jsnumber" where
  "Math_cos M v = (case v of Num x \<Rightarrow> if x = 0 then Num 1 else Num (cosImpl M x) | _ \<Rightarrow> NaN)"

definition Math_sqrt :: "Arith \<Rightarrow> jsnumber \<Rightarrow> jsnumber" where
  "Math_sqrt M v =
     (case v of
        Num x \<Rightarrow> if x < 0 then NaN else if x = 0 then Num 0 else Num (sqrtImpl M x)
      | PosInfinity \<Rightarrow> PosInfinity
      | _ \<Rightarrow> NaN)"

definition Math_atan2 :: "Arith \<Rightarrow> jsnumber \<Rightarrow> jsnumber \<Rightarrow> jsnumber" where
  "Math_atan2 M y x =
     (if y = NaN \<or> x = NaN then NaN
      else if y = Num 0 \<and> isPositive x then Num 0
      else Num (atan2Impl M y x))"

text \<open>
  \<^verbatim>\<open>
  export function haversineMiles(lat1, lng1, lat2, lng2): number {
    const R = 3959; // Earth radius in miles
    const dLat = ((lat2 - lat1) * Math.PI) / 180;
    const dLng = ((lng2 - lng1) * Math.PI) / 180;
    const a =
      Math.sin(dLat / 2) * Math.sin(dLat / 2) +
      Math.cos((lat1 * Math.PI) / 180) *
        Math.cos((lat2 * Math.PI) / 180) *
        Math.sin(dLng / 2) *
        Math.sin(dLng / 2);
    const c = 2 * Math.atan2(Math.sqrt(a), Math.sqrt(1 - a));
    return R * c;
  }
  \<close>
\<close>

definition haversineMiles ::
  "Arith \<Rightarrow> jsnumber \<Rightarrow> jsnumber \<Rightarrow> jsnumber \<Rightarrow> jsnumber \<Rightarrow> jsnumber" where
  "haversineMiles M lat1 lng1 lat2 lng2 =
     (let R = Num 3959;
          dLat = divideDouble M (timesDouble M (minusDouble M lat2 lat1) Math_PI) (Num 180);
          dLng = divideDouble M (timesDouble M (minusDouble M lng2 lng1) Math_PI) (Num 180);
          a = plusDouble M
                (timesDouble M (Math_sin M (divideDouble M dLat (Num 2))) (Math_sin M (divideDouble M dLat (Num 2))))
                (timesDouble M
                   (timesDouble M
                      (timesDouble M
                         (Math_cos M (divideDouble M (timesDouble M lat1 Math_PI) (Num 180)))
                         (Math_cos M (divideDouble M (timesDouble M lat2 Math_PI) (Num 180))))
                      (Math_sin M (divideDouble M dLng (Num 2))))
                   (Math_sin M (divideDouble M dLng (Num 2))));
          c = timesDouble M (Num 2)
                (Math_atan2 M (Math_sqrt M a) (Math_sqrt M (minusDouble M (Num 1) a)))
      in timesDouble M R c)"

text \<open>
  The arithmetic without rounding error and with the mathematical functions; it serves
  to evaluate the definitions at concrete inputs.
\<close>

definition exactAtan2 :: "jsnumber \<Rightarrow> jsnumber \<Rightarrow> real" where
  "exactAtan2 y x =
     (case (y, x) of
        (Num b, Num a) \<Rightarrow>
          if a > 0 then arctan (b / a)
          else if a < 0 then (if b \<ge> 0 then arctan (b / a) + pi else arctan (b / a) - pi)
          else if b > 0 then pi / 2 else if b < 0 then - pi / 2 else 0
      | (Num b, PosInfinity) \<Rightarrow> 0
      | (Num b, NegInfinity) \<Rightarrow> (if b \<ge> 0 then pi else - pi)
      | (PosInfinity, Num a) \<Rightarrow> pi / 2
      | (NegInfinity, Num a) \<Rightarrow> - pi / 2
      | (PosInfinity, PosInfinity) \<Rightarrow> pi / 4
      | (PosInfinity, NegInfinity) \<Rightarrow> 3 * pi / 4
      | (NegInfinity, PosInfinity) \<Rightarrow> - pi / 4
      | (NegInfinity, NegInfinity) \<Rightarrow> - 3 * pi / 4
      | _ \<Rightarrow> 0)"

definition exactArith :: Arith where
  "exactArith =
     \<lparr>toDouble = Num, sinImpl = sin, cosImpl = cos, sqrtImpl = sqrt, atan2Impl = exactAtan2\<rparr>"

section \<open>Event list: filtering and sorting\<close>

text \<open>
  \<^verbatim>\<open>
  export type EventWithLocation = {
    id: string; event_date: string; ...
    location: { name?: string; city?: string; state?: string; zip?: string;
                lat?: number | null; lng?: number | null; } | null;
  };
  \<close>
  The times and the two service flags of an event are displayed only; the engine does
  not read them. A stored coordinate is a number; so are the coordinates of the origin,
  which \<^verbatim>\<open>fetchZipCoords\<close> and \<^verbatim>\<open>fetchCityCoords\<close> obtain with \<^verbatim>\<open>parseFloat\<close> (NaN
  for a string that is no number).
\<close>

record Location =
  loc_name :: "string option"
  loc_city :: "string option"
  loc_state :: "string option"
  loc_zip :: "string option"
  loc_lat :: "jsnumber option"
  loc_lng :: "jsnumber option"

record EventWithLocation =
  event_id :: string
  event_date :: string
  location :: "Location option"

record LatLng =
  lat :: jsnumber
  lng :: jsnumber

text \<open>
  \<^verbatim>\<open>
  function getLocationCoords(event) {
    const loc = event.location;
    if (!loc || !("lat" in loc) || !("lng" in loc)) return null;
    const lat = loc.lat; const lng = loc.lng;
    if (lat == null || lng == null || typeof lat !== "number" || typeof lng !== "number")
      return null;
    return { lat, lng };
  }
  \<close>
\<close>

definition getLocationCoords :: "EventWithLocation \<Rightarrow> LatLng option" where
  "getLocationCoords event =
     (case location event of
        None \<Rightarrow> None
      | Some loc \<Rightarrow>
          (case loc_lat loc of
             None \<Rightarrow> None
           | Some latitude \<Rightarrow>
               (case loc_lng loc of
                  None \<Rightarrow> None
                | Some longitude \<Rightarrow> Some \<lparr>lat = latitude, lng = longitude\<rparr>)))"

text \<open>
  The body of the loop that fills \<^verbatim>\<open>distMap\<close>:
  \<^verbatim>\<open>
  const coords = getLocationCoords(event);
  if (coords) { const d = haversineMiles(origin.lat, origin.lng, coords.lat, coords.lng);
                distMap.set(event.id, d); }
  else { distMap.set(event.id, Infinity); }
  \<close>
\<close>

definition computedDistance :: "Arith \<Rightarrow> LatLng \<Rightarrow> EventWithLocation \<Rightarrow> jsnumber" where
  "computedDistance M origin event =
     (case getLocationCoords event of
        Some coords \<Rightarrow> haversineMiles M (lat origin) (lng origin) (lat coords) (lng coords)
      | None \<Rightarrow> PosInfinity)"

fun fillDistMap ::
  "Arith \<Rightarrow> LatLng \<Rightarrow> EventWithLocation list \<Rightarrow> (string \<rightharpoonup> jsnumber) \<Rightarrow> (string \<rightharpoonup> jsnumber)" where
  "fillDistMap M origin [] distMap = distMap"
| "fillDistMap M origin (event # rest) distMap =
     fillDistMap M origin rest (distMap(event_id event \<mapsto> computedDistance M origin event))"

text \<open>
  The memoised computation of \<^verbatim>\<open>EventListWithFilters\<close>, from the event list and the
  component state (\<^verbatim>\<open>dateFilter\<close>, \<^verbatim>\<open>originCoords\<close>, \<^verbatim>\<open>withinMiles\<close>):
  \<^verbatim>\<open>
  let list = events;
  if (dateFilter) list = list.filter((e) => e.event_date === dateFilter);
  const origin = originCoords;
  const withinMilesNum = withinMiles ? parseInt(withinMiles, 10) : null;
  const distMap = new Map<string, number>();
  if (origin) { for (const event of list) { ... } }
  if (origin) list = [...list].sort((a, b) => {
      const da = distMap.get(a.id) ?? Infinity;
      const db = distMap.get(b.id) ?? Infinity;
      return da - db; });
  if (origin && withinMilesNum != null && withinMilesNum > 0)
    list = list.filter((d) => (distMap.get(d.id) ?? Infinity) <= withinMilesNum);
  return { filteredAndSortedEvents: list, distances: distMap };
  \<close>
\<close>

definition dateFiltered :: "string \<Rightarrow> EventWithLocation list \<Rightarrow> EventWithLocation list" where
  "dateFiltered dateFilter events =
     (if dateFilter \<noteq> [] then filter (\<lambda>e. event_date e = dateFilter) events else events)"

definition distances ::
  "Arith \<Rightarrow> EventWithLocation list \<Rightarrow> string \<Rightarrow> LatLng option \<Rightarrow> (string \<rightharpoonup> jsnumber)" where
  "distances M events dateFilter originCoords =
     (case originCoords of
        Some origin \<Rightarrow> fillDistMap M origin (dateFiltered dateFilter events) Map.empty
      | None \<Rightarrow> Map.empty)"

definition filteredAndSortedEvents ::
  "Arith \<Rightarrow> EventWithLocation list \<Rightarrow> string \<Rightarrow> LatLng option \<Rightarrow> string
     \<Rightarrow> EventWithLocation list" where
  "filteredAndSortedEvents M events dateFilter originCoords withinMiles =
     (let list1 = dateFiltered dateFilter events;
          withinMilesNum = (if withinMiles \<noteq> [] then Some (parseInt withinMiles) else None);
          distMap = distances M events dateFilter originCoords;
          list2 = (if originCoords \<noteq> None
                   then arraySort (\<lambda>a b. sub (nullish (distMap (event_id a)) PosInfinity)
                                              (nullish (distMap (event_id b)) PosInfinity)) list1
                   else list1)
      in case withinMilesNum of
           None \<Rightarrow> list2
         | Some n \<Rightarrow>
             if originCoords \<noteq> None \<and> isPositive n
             then filter (\<lambda>d. lessEq (nullish (distMap (event_id d)) PosInfinity) n) list2
             else list2)"

subsection \<open>The distance the properties speak of\<close>

text \<open>
  The distance from the origin to an event, in the words of the specification: the
  haversine distance to the stored coordinates of the event's location, and the infinite
  sentinel when the location or one of its coordinates is absent.
\<close>

definition distanceToOrigin :: "Arith \<Rightarrow> LatLng \<Rightarrow> EventWithLocation \<Rightarrow> jsnumber" where
  "distanceToOrigin M origin e =
     (case location e of
        None \<Rightarrow> PosInfinity
      | Some loc \<Rightarrow>
          (case loc_lat loc of
             None \<Rightarrow> PosInfinity
           | Some la \<Rightarrow>
               (case loc_lng loc of
                  None \<Rightarrow> PosInfinity
                | Some lo \<Rightarrow> haversineMiles M (lat origin) (lng origin) la lo)))"

definition hasStoredCoordinates :: "EventWithLocation \<Rightarrow> bool" where
  "hasStoredCoordinates e =
     (case location e of None \<Rightarrow> False | Some loc \<Rightarrow> loc_lat loc \<noteq> None \<and> loc_lng loc \<noteq> None)"

section \<open>City names\<close>

text \<open>
  The word characters of a regular expression (\<^verbatim>\<open>\w\<close>: ASCII letters, digits and the
  underscore), and \<^verbatim>\<open>String.prototype.toLowerCase\<close> on the code units below 256: the
  ASCII capitals and the Latin-1 capitals \<open>U+00C0\<close> to \<open>U+00DE\<close> (without the
  multiplication sign \<open>U+00D7\<close>) move up by 32.
\<close>

definition isWordChar :: "char \<Rightarrow> bool" where
  "isWordChar c =
     (let n = (of_char c :: nat)
      in (48 \<le> n \<and> n \<le> 57) \<or> (65 \<le> n \<and> n \<le> 90) \<or> n = 95 \<or> (97 \<le> n \<and> n \<le> 122))"

definition toLowerCaseChar :: "char \<Rightarrow> char" where
  "toLowerCaseChar c =
     (let n = (of_char c :: nat)
      in if (65 \<le> n \<and> n \<le> 90) \<or> (192 \<le> n \<and> n \<le> 222 \<and> n \<noteq> 215) then char_of (n + 32) else c)"

definition toLowerCase :: "string \<Rightarrow> string" where
  "toLowerCase s = map toLowerCaseChar s"

definition trim :: "string \<Rightarrow> string" where
  "trim s = rev (dropWhile isWhiteSpace (rev (dropWhile isWhiteSpace s)))"

text \<open>
  The assertion \<^verbatim>\<open>\b\<close> at a position of the subject: exactly one of the character
  before the position and the character at it is a word character (the start and the
  end of the subject count as non-word).
\<close>

definition wordBoundary :: "bool \<Rightarrow> string \<Rightarrow> bool" where
  "wordBoundary prevIsWord rest =
     (prevIsWord \<noteq> (case rest of [] \<Rightarrow> False | c # _ \<Rightarrow> isWordChar c))"

text \<open>
  One attempt of the pattern \<^verbatim>\<open>/\bX\.?\b/\<close> at a position, for a literal \<open>X\<close>; the
  result is the length of the match. The optional dot is greedy: it is taken when a
  word boundary follows it, and given back otherwise.
\<close>

definition matchAbbrev :: "string \<Rightarrow> bool \<Rightarrow> string \<Rightarrow> nat option" where
  "matchAbbrev x prevIsWord s =
     (if wordBoundary prevIsWord s \<and> prefix x s
      then (let rest = drop (length x) s;
                lastIsWord = (if x = [] then prevIsWord else isWordChar (last x))
            in case rest of
                 c # rest' \<Rightarrow>
                   if c = CHR ''.'' \<and> wordBoundary False rest' then Some (length x + 1)
                   else if wordBoundary lastIsWord rest then Some (length x) else None
               | [] \<Rightarrow> if wordBoundary lastIsWord rest then Some (length x) else None)
      else None)"

text \<open>
  \<^verbatim>\<open>s.replace(/\bX\.?\b/g, r)\<close>: the subject is scanned from the left; a match is
  replaced and the scan goes on behind it, otherwise one character is copied. The
  boundary test looks at the subject, not at the text already produced. The literals of
  the table are not empty, so a match has at least one character.
\<close>

function replaceAbbrev :: "string \<Rightarrow> string \<Rightarrow> bool \<Rightarrow> string \<Rightarrow> string" where
  "replaceAbbrev x r prevIsWord [] = []"
| "replaceAbbrev x r prevIsWord (c # cs) =
     (case matchAbbrev x prevIsWord (c # cs) of
        Some (Suc n) \<Rightarrow> r @ replaceAbbrev x r (isWordChar ((c # cs) ! n)) (drop n cs)
      | _ \<Rightarrow> c # replaceAbbrev x r (isWordChar c) cs)"
  by pat_completeness auto
termination
  by (relation "measure (\<lambda>(x, r, prevIsWord, s). length s)") auto

text \<open>\<^verbatim>\<open>s.replace(/\s+/g, " ")\<close>\<close>

function collapseWhitespace :: "string \<Rightarrow> string" where
  "collapseWhitespace [] = []"
| "collapseWhitespace (c # cs) =
     (if isWhiteSpace c then CHR '' '' # collapseWhitespace (dropWhile isWhiteSpace cs)
      else c # collapseWhitespace cs)"
  by pat_completeness auto
termination
  by (relation "measure length") (auto simp: length_dropWhile_le less_Suc_eq_le)

text \<open>
  \<^verbatim>\<open>
  export function normalizeCityName(name: string): string {
    if (!name || typeof name !== "string") return "";
    let s = name.trim().toLowerCase();
    const replacements: [RegExp, string][] = [
      [/\bst\.?\b/g, "saint"], [/\bft\.?\b/g, "fort"], [/\bmt\.?\b/g, "mount"],
      [/\bn\.?\b/g, "north"], [/\bs\.?\b/g, "south"], [/\be\.?\b/g, "east"],
      [/\bw\.?\b/g, "west"],
    ];
    for (const [re, replacement] of replacements) s = s.replace(re, replacement);
    return s.replace(/\s+/g, " ").trim();
  }
  \<close>
\<close>

definition replacements :: "(string \<times> string) list" where
  "replacements =
     [(''st'', ''saint''), (''ft'', ''fort''), (''mt'', ''mount''), (''n'', ''north''),
      (''s'', ''south''), (''e'', ''east''), (''w'', ''west'')]"

definition applyReplacements :: "(string \<times> string) list \<Rightarrow> string \<Rightarrow> string" where
  "applyReplacements table s = foldl (\<lambda>s (x, r). replaceAbbrev x r False s) s table"

definition normalizeCityName :: "string \<Rightarrow> string" where
  "normalizeCityName name =
     (if name = [] then []
      else trim (collapseWhitespace (applyReplacements replacements (toLowerCase (trim name)))))"

text \<open>
  \<^verbatim>\<open>String.prototype.includes\<close>: the argument occurs at some position. (The name
  \<open>includes\<close> is a keyword of the proof language.)
\<close>

fun includes_str :: "string \<Rightarrow> string \<Rightarrow> bool" where
  "includes_str [] searchString = (searchString = [])"
| "includes_str (c # cs) searchString =
     (prefix searchString (c # cs) \<or> includes_str cs searchString)"

text \<open>
  \<^verbatim>\<open>
  export function citiesMatch(a: string, b: string): boolean {
    const na = normalizeCityName(a);
    const nb = normalizeCityName(b);
    if (!na || !nb) return false;
    return na.includes(nb) || nb.includes(na);
  }
  \<close>
\<close>

definition citiesMatch :: "string \<Rightarrow> string \<Rightarrow> bool" where
  "citiesMatch a b =
     (let na = normalizeCityName a; nb = normalizeCityName b
      in if na = [] \<or> nb = [] then False else includes_str na nb \<or> includes_str nb na)"

subsection \<open>Shapes of strings used in the proofs\<close>

text \<open>A literal of the table: not empty, word characters only.\<close>

definition wordy :: "string \<Rightarrow> bool" where
  "wordy x = (x \<noteq> [] \<and> list_all isWordChar x)"

text \<open>
  No position of the scan of \<open>s\<close> is the start of a whole word equal to \<open>y\<close>; the flag
  says whether the character before \<open>s\<close> is a word character.
\<close>

fun noSite :: "string \<Rightarrow> bool \<Rightarrow> string \<Rightarrow> bool" where
  "noSite y prevIsWord [] = True"
| "noSite y prevIsWord (c # cs) =
     ((prevIsWord \<or> takeWhile isWordChar (c # cs) \<noteq> y) \<and> noSite y (isWordChar c) cs)"

text \<open>Every white-space character is a single space that stands alone.\<close>

fun okSpaces :: "string \<Rightarrow> bool" where
  "okSpaces [] = True"
| "okSpaces (c # cs) =
     ((\<not> isWhiteSpace c \<or> (c = CHR '' '' \<and> (cs = [] \<or> \<not> isWhiteSpace (hd cs)))) \<and> okSpaces cs)"

text \<open>Every character is its own lower case.\<close>

definition lowered :: "string \<Rightarrow> bool" where
  "lowered s = list_all (\<lambda>c. toLowerCaseChar c = c) s"

section \<open>Admin orders: status change and ready notice\<close>

text \<open>
  An order row of the admin page, with the fields \<^verbatim>\<open>setStatus\<close> reads or writes;
  \<open>location_name\<close> is what \<^verbatim>\<open>getLocationName(order)\<close> returns for the row.
\<close>

record OrderRow =
  order_id :: string
  customer_email :: "string option"
  status :: string
  location_name :: string

text \<open>
  What lies outside the page: whether the update of the \<^verbatim>\<open>orders\<close> table reports an
  error; the environment variable \<^verbatim>\<open>RESEND_API_KEY\<close>, as it is when the mail module is
  loaded and as it is when \<^verbatim>\<open>sendOrderReady\<close> runs; and what the mail provider's
  \<^verbatim>\<open>emails.send\<close> does when it is called.
\<close>

datatype provider_reply = Delivered | Rejected string | Thrown

record Outside =
  update_error :: bool
  key_at_load :: "string option"
  RESEND_API_KEY :: "string option"
  provider :: provider_reply

text \<open>
  The state the functions act on: the \<^verbatim>\<open>orders\<close> table (status by order id), the
  page's \<^verbatim>\<open>orders\<close> and \<^verbatim>\<open>updatingId\<close> state, the calls of the server action
  \<^verbatim>\<open>notifyOrderReady\<close> that the page made (recipient, location name), the requests that
  reached the mail provider (recipient, location name), and the console.
\<close>

record World =
  orders_table :: "string \<rightharpoonup> string"
  orders :: "OrderRow list"
  updatingId :: "string option"
  notify_calls :: "(string \<times> string) list"
  provider_requests :: "(string \<times> string) list"
  console :: "string list"

datatype send_result = SendOk | SendFailed string | SendThrew

text \<open>A value is falsy when it is absent or the empty string.\<close>

definition falsy :: "string option \<Rightarrow> bool" where
  "falsy v = (v = None \<or> v = Some [])"

text \<open>
  The mail module begins with
  \<^verbatim>\<open>const resend = new Resend(process.env.RESEND_API_KEY);\<close>
  and the constructor of the mail client (a library, not part of the repository) throws
  when it is given no key and finds none in the environment. Then the module does not
  load, and nothing that imports it runs.
\<close>

definition mailModuleLoads :: "Outside \<Rightarrow> bool" where
  "mailModuleLoads out = (\<not> falsy (key_at_load out))"

text \<open>
  \<^verbatim>\<open>
  export async function sendOrderReady(to: string, locationName: string) {
    if (!process.env.RESEND_API_KEY) {
      console.warn("RESEND_API_KEY not set; skipping order ready email");
      return { ok: false as const, error: "Email not configured" };
    }
    ...
    const { data: result, error } = await resend.emails.send({ ..., to: [to], ... });
    if (error) {
      console.error("Resend sendOrderReady error:", error);
      return { ok: false as const, error: error.message };
    }
    return { ok: true as const, id: result?.id };
  }
  \<close>
\<close>

definition sendOrderReady :: "Outside \<Rightarrow> World \<Rightarrow> string \<Rightarrow> string \<Rightarrow> World \<times> send_result" where
  "sendOrderReady out w to locationName =
     (if falsy (RESEND_API_KEY out)
      then (w\<lparr>console := console w @ [''RESEND_API_KEY not set; skipping order ready email'']\<rparr>,
            SendFailed ''Email not configured'')
      else (let w1 = w\<lparr>provider_requests := provider_requests w @ [(to, locationName)]\<rparr>
            in case provider out of
                 Delivered \<Rightarrow> (w1, SendOk)
               | Rejected message \<Rightarrow>
                   (w1\<lparr>console := console w1 @ [''Resend sendOrderReady error:'']\<rparr>,
                    SendFailed message)
               | Thrown \<Rightarrow> (w1, SendThrew)))"

text \<open>
  \<^verbatim>\<open>
  import { sendOrderReady } from "@/lib/email";
  export async function notifyOrderReady(customerEmail: string, locationName: string) {
    if (!customerEmail?.trim()) return { ok: false as const, error: "No customer email" };
    return sendOrderReady(customerEmail.trim(), locationName);
  }
  \<close>
  The action imports the mail module: when that does not load, the call fails before
  the body runs.
\<close>

definition notifyOrderReady :: "Outside \<Rightarrow> World \<Rightarrow> string \<Rightarrow> string \<Rightarrow> World \<times> send_result" where
  "notifyOrderReady out w customerEmail locationName =
     (if \<not> mailModuleLoads out then (w, SendThrew)
      else if trim customerEmail = [] then (w, SendFailed ''No customer email'')
      else sendOrderReady out w (trim customerEmail) locationName)"

text \<open>
  \<^verbatim>\<open>
  async function setStatus(orderId: string, newStatus: string, order: OrderRow) {
    setUpdatingId(orderId);
    const { error } = await supabase.from("orders")
      .update({ status: newStatus }).eq("id", orderId);
    if (error) { console.error("Order update error:", error); setUpdatingId(null); return; }
    setOrders((prev) =>
      prev.map((o) => (o.id === orderId ? { ...o, status: newStatus } : o)));
    if (newStatus === "ready" && order.customer_email?.trim()) {
      await notifyOrderReady(order.customer_email.trim(), getLocationName(order));
    }
    setUpdatingId(null);
  }
  \<close>
  An update that reports no error has set the status of the row with that id, if the
  table has one. The call of \<^verbatim>\<open>notifyOrderReady\<close> is a request of the page to the
  server; an exception of the awaited call leaves \<^verbatim>\<open>setStatus\<close> before its last
  statement.
\<close>

definition hasCustomerEmail :: "OrderRow \<Rightarrow> bool" where
  "hasCustomerEmail order =
     (case customer_email order of None \<Rightarrow> False | Some email \<Rightarrow> trim email \<noteq> [])"

definition setStatus :: "Outside \<Rightarrow> World \<Rightarrow> string \<Rightarrow> string \<Rightarrow> OrderRow \<Rightarrow> World" where
  "setStatus out w orderId newStatus order =
     (let w1 = w\<lparr>updatingId := Some orderId\<rparr>
      in if update_error out
         then w1\<lparr>console := console w1 @ [''Order update error:''], updatingId := None\<rparr>
         else (let w2 = w1\<lparr>orders_table :=
                             (if orderId \<in> dom (orders_table w1)
                              then (orders_table w1)(orderId \<mapsto> newStatus)
                              else orders_table w1)\<rparr>;
                   w3 = w2\<lparr>orders :=
                             map (\<lambda>row. if order_id row = orderId then row\<lparr>status := newStatus\<rparr> else row)
                               (orders w2)\<rparr>
               in if newStatus = ''ready'' \<and> hasCustomerEmail order
                  then (let email = trim (nullish (customer_email order) []);
                            w4 = w3\<lparr>notify_calls := notify_calls w3 @ [(email, location_name order)]\<rparr>
                        in case notifyOrderReady out w4 email (location_name order) of
                             (w5, SendThrew) \<Rightarrow> w5
                           | (w5, _) \<Rightarrow> w5\<lparr>updatingId := None\<rparr>)
                  else w3\<lparr>updatingId := None\<rparr>))"

section \<open>Properties of the order form\<close>

lemma mathMax_Max: "mathMax m xs = Max (insert m (set xs))"
proof (induction xs arbitrary: m)
  case Nil
  show ?case by simp
next
  case (Cons x xs)
  have "Max (insert (max m x) (set xs)) = Max (insert m (insert x (set xs)))"
  proof (cases "set xs = {}")
    case True
    then show ?thesis by (simp add: max.commute)
  next
    case False
    then show ?thesis by (simp add: max.assoc)
  qed
  with Cons show ?case by simp
qed

lemma set_prepTimes: "set (prepTimes lis) = positivePrepTimes lis"
  by (force simp: prepTimes_def positivePrepTimes_def isPositiveNumber_def nullish_def
      split: option.splits)

lemma lineItems_quantity_positive: "(item, qty) \<in> set (lineItems quantities filtered) \<Longrightarrow> qty > 0"
  by (auto simp: lineItems_def Let_def split: if_splits)

lemma set_lineItems:
  "set (lineItems quantities filtered) =
     {(item, qty). item \<in> set filtered \<and> quantities (item_id item) = Some qty \<and> qty > 0}"
  by (auto simp: lineItems_def Let_def nullish_def split: if_splits option.splits)

text \<open>
  Claim C8. The availability filter keeps the items of the menu in their order and
  drops exactly those whose pickup-only flag is true when the order type is dine-in
  and those whose dine-in-only flag is true when the order type is pickup; an item
  with both flags false (or absent) is kept for both order types.
\<close>

theorem filteredMenuItems_excludes_exactly:
  "filteredMenuItems orderType menuItems =
     filter (\<lambda>item. \<not> (orderType = DineIn \<and> pickup_only item = Some True)
                  \<and> \<not> (orderType = Pickup \<and> dine_in_only item = Some True)) menuItems
   \<and> (item \<in> set menuItems \<and> dine_in_only item \<in> {None, Some False}
        \<and> pickup_only item \<in> {None, Some False}
      \<longrightarrow> item \<in> set (filteredMenuItems DineIn menuItems)
          \<and> item \<in> set (filteredMenuItems Pickup menuItems))"
proof -
  have "keepForOrderType orderType =
          (\<lambda>item. \<not> (orderType = DineIn \<and> pickup_only item = Some True)
                 \<and> \<not> (orderType = Pickup \<and> dine_in_only item = Some True))"
  proof (rule ext)
    fix item'
    show "keepForOrderType orderType item' =
          (\<not> (orderType = DineIn \<and> pickup_only item' = Some True)
           \<and> \<not> (orderType = Pickup \<and> dine_in_only item' = Some True))"
      by (cases orderType; cases "pickup_only item'"; cases "dine_in_only item'")
         (simp_all add: keepForOrderType_def nullish_def)
  qed
  then have "filteredMenuItems orderType menuItems =
     filter (\<lambda>item. \<not> (orderType = DineIn \<and> pickup_only item = Some True)
                  \<and> \<not> (orderType = Pickup \<and> dine_in_only item = Some True)) menuItems"
    unfolding filteredMenuItems_def by (rule arg_cong2 [where f = filter]) simp
  moreover have "item \<in> set menuItems \<and> dine_in_only item \<in> {None, Some False}
        \<and> pickup_only item \<in> {None, Some False}
      \<longrightarrow> item \<in> set (filteredMenuItems DineIn menuItems)
          \<and> item \<in> set (filteredMenuItems Pickup menuItems)"
    by (auto simp: filteredMenuItems_def keepForOrderType_def nullish_def)
  ultimately show ?thesis by blast
qed

theorem filteredMenuItems_excludes_exactly_witness:
  "filteredMenuItems DineIn
     [\<lparr>item_id = ''a'', item_name = ''Cod'', category = ''fish'', prep_time_minutes = Some 10,
        dine_in_only = Some False, pickup_only = Some True\<rparr>,
      \<lparr>item_id = ''b'', item_name = ''Slaw'', category = ''sides'', prep_time_minutes = None,
        dine_in_only = None, pickup_only = Some False\<rparr>]
   = [\<lparr>item_id = ''b'', item_name = ''Slaw'', category = ''sides'', prep_time_minutes = None,
        dine_in_only = None, pickup_only = Some False\<rparr>]
   \<and> \<lparr>item_id = ''b'', item_name = ''Slaw'', category = ''sides'', prep_time_minutes = None,
        dine_in_only = None, pickup_only = Some False\<rparr>
       \<in> set (filteredMenuItems Pickup
     [\<lparr>item_id = ''a'', item_name = ''Cod'', category = ''fish'', prep_time_minutes = Some 10,
        dine_in_only = Some False, pickup_only = Some True\<rparr>,
      \<lparr>item_id = ''b'', item_name = ''Slaw'', category = ''sides'', prep_time_minutes = None,
        dine_in_only = None, pickup_only = Some False\<rparr>])"
  using filteredMenuItems_excludes_exactly [of DineIn
     "[\<lparr>item_id = ''a'', item_name = ''Cod'', category = ''fish'', prep_time_minutes = Some 10,
        dine_in_only = Some False, pickup_only = Some True\<rparr>,
      \<lparr>item_id = ''b'', item_name = ''Slaw'', category = ''sides'', prep_time_minutes = None,
        dine_in_only = None, pickup_only = Some False\<rparr>]"
     "\<lparr>item_id = ''b'', item_name = ''Slaw'', category = ''sides'', prep_time_minutes = None,
        dine_in_only = None, pickup_only = Some False\<rparr>"]
  by simp

text \<open>
  Claim C7. For every list of selected line items (the menu items of the form with a
  quantity above zero), the estimated wait is the largest preparation time among the
  selected items whose preparation time is set and strictly positive; when no selected
  item has one, the estimate is absent (\<open>None\<close>), not zero. The selection the form
  builds holds only quantities above zero.
\<close>

theorem estimatedWaitMinutes_max_positive_prep:
  "estimatedWaitMinutes sel =
     (if positivePrepTimes sel = {} then None else Some (Max (positivePrepTimes sel)))
   \<and> (\<forall>(item, qty) \<in> set (lineItems quantities (filteredMenuItems orderType menuItems)). qty > 0)"
proof -
  have "estimatedWaitMinutes sel =
     (if positivePrepTimes sel = {} then None else Some (Max (positivePrepTimes sel)))"
  proof (cases "prepTimes sel")
    case Nil
    then have "positivePrepTimes sel = {}"
      using set_prepTimes [of sel] by simp
    with Nil show ?thesis by (simp add: estimatedWaitMinutes_def)
  next
    case (Cons p ps)
    then have "positivePrepTimes sel = insert p (set ps)"
      using set_prepTimes [of sel] by simp
    with Cons show ?thesis by (simp add: estimatedWaitMinutes_def mathMax_Max)
  qed
  moreover have "\<forall>(item, qty) \<in> set (lineItems quantities (filteredMenuItems orderType menuItems)). qty > 0"
    using lineItems_quantity_positive by fastforce
  ultimately show ?thesis by blast
qed

theorem estimatedWaitMinutes_max_positive_prep_witness:
  "estimatedWaitMinutes (lineItems [''a'' \<mapsto> 2, ''b'' \<mapsto> 1, ''c'' \<mapsto> 0] (filteredMenuItems Pickup
     [\<lparr>item_id = ''a'', item_name = ''Cod'', category = ''fish'', prep_time_minutes = Some 10,
        dine_in_only = None, pickup_only = None\<rparr>,
      \<lparr>item_id = ''b'', item_name = ''Fries'', category = ''sides'', prep_time_minutes = Some 20,
        dine_in_only = None, pickup_only = None\<rparr>,
      \<lparr>item_id = ''c'', item_name = ''Pie'', category = ''desserts'', prep_time_minutes = Some 45,
        dine_in_only = None, pickup_only = None\<rparr>])) = Some 20
   \<and> Max (positivePrepTimes (lineItems [''a'' \<mapsto> 2, ''b'' \<mapsto> 1, ''c'' \<mapsto> 0] (filteredMenuItems Pickup
     [\<lparr>item_id = ''a'', item_name = ''Cod'', category = ''fish'', prep_time_minutes = Some 10,
        dine_in_only = None, pickup_only = None\<rparr>,
      \<lparr>item_id = ''b'', item_name = ''Fries'', category = ''sides'', prep_time_minutes = Some 20,
        dine_in_only = None, pickup_only = None\<rparr>,
      \<lparr>item_id = ''c'', item_name = ''Pie'', category = ''desserts'', prep_time_minutes = Some 45,
        dine_in_only = None, pickup_only = None\<rparr>]))) = 20
   \<and> estimatedWaitMinutes (lineItems [''a'' \<mapsto> 1] (filteredMenuItems DineIn
     [\<lparr>item_id = ''a'', item_name = ''Cod'', category = ''fish'', prep_time_minutes = Some 0,
        dine_in_only = None, pickup_only = None\<rparr>])) = None"
proof -
  let ?sel = "lineItems [''a'' \<mapsto> 2, ''b'' \<mapsto> 1, ''c'' \<mapsto> 0] (filteredMenuItems Pickup
     [\<lparr>item_id = ''a'', item_name = ''Cod'', category = ''fish'', prep_time_minutes = Some 10,
        dine_in_only = None, pickup_only = None\<rparr>,
      \<lparr>item_id = ''b'', item_name = ''Fries'', category = ''sides'', prep_time_minutes = Some 20,
        dine_in_only = None, pickup_only = None\<rparr>,
      \<lparr>item_id = ''c'', item_name = ''Pie'', category = ''desserts'', prep_time_minutes = Some 45,
        dine_in_only = None, pickup_only = None\<rparr>])"
  have a: "estimatedWaitMinutes ?sel = Some 20"
    by (simp add: estimatedWaitMinutes_def prepTimes_def lineItems_def filteredMenuItems_def
        keepForOrderType_def nullish_def isPositiveNumber_def)
  have b: "estimatedWaitMinutes (lineItems [''a'' \<mapsto> 1] (filteredMenuItems DineIn
     [\<lparr>item_id = ''a'', item_name = ''Cod'', category = ''fish'', prep_time_minutes = Some 0,
        dine_in_only = None, pickup_only = None\<rparr>])) = None"
    by (simp add: estimatedWaitMinutes_def prepTimes_def lineItems_def filteredMenuItems_def
        keepForOrderType_def nullish_def isPositiveNumber_def)
  from a estimatedWaitMinutes_max_positive_prep [of ?sel]
  have "Max (positivePrepTimes ?sel) = 20"
    by (simp split: if_splits)
  with a b show ?thesis by blast
qed

section \<open>Properties of the haversine distance\<close>

lemma neg_neg: "neg (neg v) = v"
  by (cases v) simp_all

lemma plusDouble_neg:
  assumes "\<forall>x. toDouble M (- x) = neg (toDouble M x)"
  shows "plusDouble M (neg a) (neg b) = neg (plusDouble M a b)"
proof -
  have "toDouble M (- x - y) = neg (toDouble M (x + y))" for x y
    using assms [rule_format, of "x + y"] by simp
  then show ?thesis
    by (cases a; cases b) simp_all
qed

lemma minusDouble_swap:
  assumes "\<forall>x. toDouble M (- x) = neg (toDouble M x)"
  shows "minusDouble M a b = neg (minusDouble M b a)"
proof -
  have "plusDouble M a (neg b) = plusDouble M (neg b) a"
    by (cases a; cases b) (simp_all add: add.commute)
  also have "\<dots> = plusDouble M (neg b) (neg (neg a))"
    by (simp add: neg_neg)
  also have "\<dots> = neg (plusDouble M b (neg a))"
    by (rule plusDouble_neg [OF assms])
  finally show ?thesis by (simp add: minusDouble_def)
qed

lemma timesDouble_commute: "timesDouble M a b = timesDouble M b a"
  by (cases a; cases b) (simp_all add: mult.commute)

lemma timesDouble_neg_left:
  "\<forall>x. toDouble M (- x) = neg (toDouble M x) \<Longrightarrow>
   timesDouble M (neg a) b = neg (timesDouble M a b)"
  by (cases a; cases b) auto

lemma timesDouble_neg_neg: "timesDouble M (neg a) (neg b) = timesDouble M a b"
  by (cases a; cases b) auto

lemma divideDouble_neg_left:
  "\<forall>x. toDouble M (- x) = neg (toDouble M x) \<Longrightarrow>
   divideDouble M (neg a) b = neg (divideDouble M a b)"
  by (cases a; cases b) auto

lemma Math_sin_neg:
  "\<forall>x. sinImpl M (- x) = - sinImpl M x \<Longrightarrow> Math_sin M (neg v) = neg (Math_sin M v)"
  by (cases v) (simp_all add: Math_sin_def)

lemma equalsNumber_self: "equalsNumber v v = (v \<noteq> NaN)"
  by (simp add: equalsNumber_def)

lemma haversineMiles_symmetric:
  assumes r: "\<forall>x. toDouble M (- x) = neg (toDouble M x)"
    and s: "\<forall>x. sinImpl M (- x) = - sinImpl M x"
  shows "haversineMiles M lat1 lng1 lat2 lng2 = haversineMiles M lat2 lng2 lat1 lng1"
proof -
  have half: "Math_sin M (divideDouble M (divideDouble M (timesDouble M (minusDouble M p q) Math_PI) (Num 180)) (Num 2))
      = neg (Math_sin M (divideDouble M (divideDouble M (timesDouble M (minusDouble M q p) Math_PI) (Num 180)) (Num 2)))"
    for p q
    by (subst minusDouble_swap [OF r])
       (simp add: timesDouble_neg_left [OF r] divideDouble_neg_left [OF r] Math_sin_neg [OF s])
  have sq: "timesDouble M (neg u) (neg u) = timesDouble M u u" for u
    by (rule timesDouble_neg_neg)
  have cc: "timesDouble M (timesDouble M c (neg u)) (neg u) = timesDouble M (timesDouble M c u) u" for c u
  proof -
    have "timesDouble M c (neg u) = neg (timesDouble M c u)"
      by (metis timesDouble_commute timesDouble_neg_left [OF r])
    then show ?thesis by (simp add: timesDouble_neg_neg)
  qed
  show ?thesis
    unfolding haversineMiles_def Let_def
    by (simp only: half [of lat2 lat1] half [of lng2 lng1] sq cc
        timesDouble_commute [of M "Math_cos M (divideDouble M (timesDouble M lat1 Math_PI) (Num 180))"])
qed

lemma haversineMiles_same_point:
  assumes z0: "toDouble M 0 = Num 0" and z1: "toDouble M 1 = Num 1"
    and b1: "1 \<le> B"
    and fin: "\<forall>x. \<bar>x\<bar> \<le> B \<longrightarrow> (\<exists>y. toDouble M x = Num y \<and> \<bar>y\<bar> \<le> B)"
    and cosr: "\<forall>x. \<bar>cosImpl M x\<bar> \<le> 1"
    and sq1: "sqrtImpl M 1 > 0"
    and la: "\<bar>la\<bar> * 4 \<le> B"
  shows "haversineMiles M (Num la) (Num lo) (Num la) (Num lo) = Num 0"
proof -
  define piD :: real where "piD = 884279719003555 / 281474976710656"
  have P: "Math_PI = Num piD"
    by (simp add: Math_PI_def piD_def)
  have pb: "0 \<le> piD" "piD \<le> 4"
    by (simp_all add: piD_def)
  have pi_le: "\<bar>la * piD\<bar> \<le> B"
  proof -
    have "\<bar>la * piD\<bar> = \<bar>la\<bar> * piD"
      using pb by (simp add: abs_mult)
    also have "\<dots> \<le> \<bar>la\<bar> * 4"
      using pb by (intro mult_left_mono) auto
    finally show ?thesis using la by simp
  qed
  then obtain y1 where y1: "toDouble M (la * piD) = Num y1" "\<bar>y1\<bar> \<le> B"
    using fin by blast
  have "\<bar>y1 / 180\<bar> \<le> \<bar>y1\<bar>" by simp
  then have "\<bar>y1 / 180\<bar> \<le> B" using y1(2) by linarith
  then obtain y2 where y2: "toDouble M (y1 / 180) = Num y2"
    using fin by blast
  obtain c where c: "Math_cos M (Num y2) = Num c" "\<bar>c\<bar> \<le> 1"
    using cosr by (cases "y2 = 0") (auto simp: Math_cos_def)
  have "\<bar>c * c\<bar> \<le> 1"
    using c(2) abs_square_le_1 [of c] by (simp add: power2_eq_square)
  then have "\<bar>c * c\<bar> \<le> B" using b1 by linarith
  then obtain cc where cc: "toDouble M (c * c) = Num cc"
    using fin by blast
  have s0: "Math_sin M (Num 0) = Num 0" by (simp add: Math_sin_def)
  have d0: "divideDouble M (divideDouble M (timesDouble M (minusDouble M (Num v) (Num v)) Math_PI) (Num 180)) (Num 2) = Num 0" for v
    by (simp add: minusDouble_def P z0)
  have rad: "divideDouble M (timesDouble M (Num la) Math_PI) (Num 180) = Num y2"
    by (simp add: P y1 y2)
  have a0: "plusDouble M (timesDouble M (Num 0) (Num 0))
              (timesDouble M (timesDouble M (timesDouble M (Num c) (Num c)) (Num 0)) (Num 0)) = Num 0"
    by (simp add: z0 cc)
  have "Math_sqrt M (minusDouble M (Num 1) (Num 0)) = Num (sqrtImpl M 1)"
    using sq1 by (simp add: minusDouble_def z1 Math_sqrt_def)
  then have at: "Math_atan2 M (Math_sqrt M (Num 0)) (Math_sqrt M (minusDouble M (Num 1) (Num 0))) = Num 0"
    using sq1 by (simp add: Math_atan2_def Math_sqrt_def)
  show ?thesis
    unfolding haversineMiles_def Let_def
    by (simp only: d0 s0 rad c(1) a0 at) (simp add: z0)
qed

lemma haversineMiles_NaN_origin: "haversineMiles M NaN lng1 lat2 lng2 = NaN"
proof -
  have a: "plusDouble M v NaN = NaN" for v by (cases v) simp_all
  have m: "timesDouble M v NaN = NaN" for v by (cases v) simp_all
  show ?thesis
    by (simp add: haversineMiles_def minusDouble_def Math_sin_def Math_cos_def Math_sqrt_def
        Math_atan2_def Math_PI_def a m)
qed

text \<open>
  Claim C4, as it is stated, fails where the distance is NaN: NaN is not \<^verbatim>\<open>==\<close> to
  itself, and it is not zero. An origin whose latitude is NaN (\<^verbatim>\<open>parseFloat\<close> of a
  malformed string) gives that distance in either order of the points, and from the
  point to itself. (In doubles the same value arises between nearly antipodal points,
  where rounding lifts \<open>a\<close> above 1.)
\<close>

theorem haversineMiles_NaN_not_equal_not_zero:
  "\<not> equalsNumber (haversineMiles exactArith NaN (Num (- 90)) (Num 38) (Num (- 90)))
                    (haversineMiles exactArith (Num 38) (Num (- 90)) NaN (Num (- 90)))
   \<and> haversineMiles exactArith NaN (Num (- 90)) NaN (Num (- 90)) \<noteq> Num 0"
  by (simp add: haversineMiles_NaN_origin equalsNumber_def)

text \<open>
  Claim C4, amended. Let the rounding be symmetric about zero, exact at 0 and at 1, and
  finite and not above \<open>B\<close> on the magnitudes up to a bound \<open>B \<ge> 1\<close> (for doubles,
  \<open>B\<close> may be any double, up to the largest); let \<^verbatim>\<open>Math.sin\<close> be odd, \<^verbatim>\<open>Math.cos\<close>
  stay within \<open>[-1, 1]\<close> and \<^verbatim>\<open>Math.sqrt(1)\<close> be positive. Then for all numbers,
  \<open>haversineMiles\<close> of \<open>p\<close> and \<open>q\<close> and of \<open>q\<close> and \<open>p\<close> are the same value, so that
  \<^verbatim>\<open>==\<close> holds between them exactly when that value is not NaN; and for every point
  \<open>p\<close> with finite coordinates whose latitude, times 4, is within \<open>B\<close> (so that
  its product with \<^verbatim>\<open>Math.PI\<close> does not overflow; every latitude of the globe is),
  \<open>haversineMiles\<close> of \<open>p\<close> and \<open>p\<close> is exactly zero.
\<close>

theorem haversineMiles_symmetric_and_zero:
  assumes "\<forall>x. toDouble M (- x) = neg (toDouble M x)"
    and "\<forall>x. sinImpl M (- x) = - sinImpl M x"
    and "toDouble M 0 = Num 0" and "toDouble M 1 = Num 1"
    and "1 \<le> B"
    and "\<forall>x. \<bar>x\<bar> \<le> B \<longrightarrow> (\<exists>y. toDouble M x = Num y \<and> \<bar>y\<bar> \<le> B)"
    and "\<forall>x. \<bar>cosImpl M x\<bar> \<le> 1"
    and "sqrtImpl M 1 > 0"
  shows "haversineMiles M lat1 lng1 lat2 lng2 = haversineMiles M lat2 lng2 lat1 lng1
       \<and> equalsNumber (haversineMiles M lat1 lng1 lat2 lng2) (haversineMiles M lat2 lng2 lat1 lng1)
           = (haversineMiles M lat1 lng1 lat2 lng2 \<noteq> NaN)
       \<and> (\<forall>la lo. \<bar>la\<bar> * 4 \<le> B \<longrightarrow>
             haversineMiles M (Num la) (Num lo) (Num la) (Num lo) = Num 0)"
proof -
  have sym: "haversineMiles M lat1 lng1 lat2 lng2 = haversineMiles M lat2 lng2 lat1 lng1"
    using assms(1,2) by (rule haversineMiles_symmetric)
  moreover have "equalsNumber (haversineMiles M lat1 lng1 lat2 lng2) (haversineMiles M lat2 lng2 lat1 lng1)
           = (haversineMiles M lat1 lng1 lat2 lng2 \<noteq> NaN)"
    unfolding sym [symmetric] by (rule equalsNumber_self)
  moreover have "\<forall>la lo. \<bar>la\<bar> * 4 \<le> B \<longrightarrow>
             haversineMiles M (Num la) (Num lo) (Num la) (Num lo) = Num 0"
    using haversineMiles_same_point [OF assms(3-8)] by blast
  ultimately show ?thesis by blast
qed

theorem haversineMiles_symmetric_and_zero_witness:
  "haversineMiles exactArith (Num (38627 / 1000)) (Num (- 901994 / 10000))
                              (Num (418781 / 10000)) (Num (- 876298 / 10000))
     = haversineMiles exactArith (Num (418781 / 10000)) (Num (- 876298 / 10000))
                                 (Num (38627 / 1000)) (Num (- 901994 / 10000))
   \<and> haversineMiles exactArith (Num (38627 / 1000)) (Num (- 901994 / 10000))
                                (Num (38627 / 1000)) (Num (- 901994 / 10000)) = Num 0"
proof -
  have h: "\<forall>x. toDouble exactArith (- x) = neg (toDouble exactArith x)"
    "\<forall>x. sinImpl exactArith (- x) = - sinImpl exactArith x"
    "toDouble exactArith 0 = Num 0" "toDouble exactArith 1 = Num 1"
    "(1::real) \<le> 1000"
    "\<forall>x. \<bar>x\<bar> \<le> 1000 \<longrightarrow> (\<exists>y. toDouble exactArith x = Num y \<and> \<bar>y\<bar> \<le> 1000)"
    "\<forall>x. \<bar>cosImpl exactArith x\<bar> \<le> 1"
    "sqrtImpl exactArith 1 > 0"
    by (simp_all add: exactArith_def)
  from haversineMiles_symmetric_and_zero [OF h,
      of "Num (38627 / 1000)" "Num (- 901994 / 10000)" "Num (418781 / 10000)" "Num (- 876298 / 10000)"]
  show ?thesis by simp
qed

section \<open>Properties of the event list\<close>

lemma bitLength_bounds: "n < 2 ^ bitLength n \<and> (n \<noteq> 0 \<longrightarrow> 2 ^ (bitLength n - 1) \<le> n)"
proof (induction n rule: bitLength.induct)
  case (1 n)
  show ?case
  proof (cases "n = 0")
    case True
    then show ?thesis by (simp add: bitLength.simps)
  next
    case False
    then have b: "bitLength n = Suc (bitLength (n div 2))"
      by (subst bitLength.simps) simp
    from 1 False have ih: "n div 2 < 2 ^ bitLength (n div 2)"
      "n div 2 \<noteq> 0 \<longrightarrow> 2 ^ (bitLength (n div 2) - 1) \<le> n div 2"
      by auto
    have "n < 2 ^ bitLength n"
      using ih(1) b by auto
    moreover have "2 ^ (bitLength n - 1) \<le> n"
    proof (cases "n div 2 = 0")
      case True
      then have "n = 1" using False by auto
      then show ?thesis by (simp add: b True bitLength.simps)
    next
      case nz: False
      then have "bitLength (n div 2) \<noteq> 0"
        by (subst bitLength.simps) simp
      then have "bitLength (n div 2) = Suc (bitLength (n div 2) - 1)"
        by simp
      then have "(2::nat) ^ bitLength (n div 2) = 2 * 2 ^ (bitLength (n div 2) - 1)"
        by (metis power_Suc)
      with ih(2) nz show ?thesis
        unfolding b by auto
    qed
    ultimately show ?thesis by blast
  qed
qed

lemma numberOfNat_small: "n < 2 ^ 53 \<Longrightarrow> numberOfNat n = Num (real n)"
proof -
  assume a: "n < 2 ^ 53"
  have "bitLength n \<le> 53"
  proof (rule ccontr)
    assume "\<not> bitLength n \<le> 53"
    then have "54 \<le> bitLength n" by simp
    then have "(2::nat) ^ 53 \<le> 2 ^ (bitLength n - 1)"
      by (intro power_increasing) auto
    then have "\<not> 2 ^ (bitLength n - 1) < (2::nat) ^ 53"
      by (simp only: not_less)
    moreover have "n \<noteq> 0"
      using \<open>54 \<le> bitLength n\<close> by (cases "n = 0") (auto simp: bitLength.simps)
    ultimately show False
      using bitLength_bounds [of n] a by (meson le_less_trans)
  qed
  then show ?thesis by (simp add: numberOfNat_def del: power_numeral)
qed

lemma numberOfNat_overflow: "2 ^ 1024 \<le> n \<Longrightarrow> numberOfNat n = PosInfinity"
proof -
  assume a: "2 ^ 1024 \<le> n"
  let ?b = "bitLength n"
  have "n < 2 ^ ?b" using bitLength_bounds by blast
  with a have "(2::nat) ^ 1024 < 2 ^ ?b" by linarith
  then have b: "1024 < ?b" by (simp only: power_strict_increasing_iff one_less_numeral_iff semiring_norm)
  let ?s = "?b - 53"
  have n0: "n \<noteq> 0" using a by auto
  then have lo: "2 ^ (?b - 1) \<le> n" using bitLength_bounds by blast
  have "(2::nat) ^ (?b - 1) = 2 ^ 52 * 2 ^ ?s"
    using b by (simp add: power_add [symmetric] del: power_numeral)
  with lo have "2 ^ 52 * 2 ^ ?s \<le> n" by (simp only:)
  then have q: "2 ^ 52 \<le> n div 2 ^ ?s"
    by (simp add: less_eq_div_iff_mult_less_eq del: power_numeral)
  have "(2::nat) ^ 1024 \<le> 2 ^ (?b - 1)"
    using b by (intro power_increasing) auto
  also have "\<dots> = 2 ^ 52 * 2 ^ ?s" by fact
  also have "\<dots> \<le> (n div 2 ^ ?s) * 2 ^ ?s"
    using q by (simp del: power_numeral)
  finally have big: "2 ^ 1024 \<le> (n div 2 ^ ?s) * 2 ^ ?s" .
  then have "2 ^ 1024 \<le> (n div 2 ^ ?s + 1) * 2 ^ ?s"
    by (simp add: add_mult_distrib del: power_numeral)
  with big b show ?thesis
    unfolding numberOfNat_def Let_def by (auto simp del: power_numeral)
qed


lemma mset_insertSorted: "mset (insertSorted c x ys) = add_mset x (mset ys)"
  by (induction ys) auto

lemma set_insertSorted: "set (insertSorted c x ys) = insert x (set ys)"
  by (induction ys) auto

lemma mset_arraySort: "mset (arraySort c xs) = mset xs"
  by (induction xs) (auto simp: arraySort_def mset_insertSorted)

lemma set_arraySort: "set (arraySort c xs) = set xs"
  using mset_arraySort [of c xs] by (metis set_mset_mset)

lemma insertSorted_cong:
  "(\<And>y. y \<in> set ys \<Longrightarrow> c x y = c' x y) \<Longrightarrow> insertSorted c x ys = insertSorted c' x ys"
  by (induction ys) auto

lemma arraySort_cong:
  "(\<And>a b. a \<in> set xs \<Longrightarrow> b \<in> set xs \<Longrightarrow> c a b = c' a b) \<Longrightarrow> arraySort c xs = arraySort c' xs"
proof (induction xs)
  case Nil
  show ?case by (simp add: arraySort_def)
next
  case (Cons x xs)
  have ih: "arraySort c xs = arraySort c' xs"
    using Cons by simp
  have "insertSorted c x (arraySort c' xs) = insertSorted c' x (arraySort c' xs)"
    by (rule insertSorted_cong) (simp add: set_arraySort Cons.prems)
  with ih show ?case by (simp add: arraySort_def)
qed

lemma positive_sub_iff: "x \<noteq> NaN \<Longrightarrow> y \<noteq> NaN \<Longrightarrow> isPositive (sub x y) = (\<not> lessEq x y)"
  by (cases x; cases y) auto

lemma lessEq_trans: "x \<noteq> NaN \<Longrightarrow> y \<noteq> NaN \<Longrightarrow> z \<noteq> NaN \<Longrightarrow> lessEq x y \<Longrightarrow> lessEq y z \<Longrightarrow> lessEq x z"
  by (cases x; cases y; cases z) auto

lemma lessEq_total: "x \<noteq> NaN \<Longrightarrow> y \<noteq> NaN \<Longrightarrow> lessEq x y \<or> lessEq y x"
  by (cases x; cases y) auto

lemma sorted_insertSorted:
  assumes "\<forall>e \<in> set (x # ys). k e \<noteq> NaN"
    and "sorted_wrt (\<lambda>a b. lessEq (k a) (k b)) ys"
  shows "sorted_wrt (\<lambda>a b. lessEq (k a) (k b)) (insertSorted (\<lambda>a b. sub (k a) (k b)) x ys)"
  using assms
proof (induction ys)
  case Nil
  show ?case by simp
next
  case (Cons y ys)
  show ?case
  proof (cases "lessEq (k x) (k y)")
    case True
    then have "\<forall>z \<in> set ys. lessEq (k x) (k z)"
      using Cons.prems by (auto intro: lessEq_trans [of "k x" "k y"])
    with True Cons.prems show ?thesis
      by (simp add: positive_sub_iff)
  next
    case False
    then have yx: "lessEq (k y) (k x)"
      using Cons.prems lessEq_total [of "k x" "k y"] by auto
    have "sorted_wrt (\<lambda>a b. lessEq (k a) (k b)) (insertSorted (\<lambda>a b. sub (k a) (k b)) x ys)"
      using Cons by simp
    moreover have "\<forall>z \<in> set (insertSorted (\<lambda>a b. sub (k a) (k b)) x ys). lessEq (k y) (k z)"
      using Cons.prems yx
      by (auto simp: set_insertSorted intro: lessEq_trans [of "k y" "k x"])
    ultimately show ?thesis
      using False Cons.prems by (simp add: positive_sub_iff)
  qed
qed

lemma sorted_arraySort:
  "\<forall>e \<in> set xs. k e \<noteq> NaN \<Longrightarrow>
   sorted_wrt (\<lambda>a b. lessEq (k a) (k b)) (arraySort (\<lambda>a b. sub (k a) (k b)) xs)"
proof (induction xs)
  case Nil
  show ?case by (simp add: arraySort_def)
next
  case (Cons x xs)
  have "sorted_wrt (\<lambda>a b. lessEq (k a) (k b)) (insertSorted (\<lambda>a b. sub (k a) (k b)) x (arraySort (\<lambda>a b. sub (k a) (k b)) xs))"
    by (rule sorted_insertSorted) (use Cons in \<open>auto simp: set_arraySort\<close>)
  then show ?case by (simp add: arraySort_def)
qed

lemma sub_self_not_positive: "\<not> isPositive (sub v v)"
  by (cases v) auto

lemma filter_insertSorted_stable:
  "filter (\<lambda>e. k e = v) (insertSorted (\<lambda>a b. sub (k a) (k b)) x ys) =
     (if k x = v then x # filter (\<lambda>e. k e = v) ys else filter (\<lambda>e. k e = v) ys)"
  by (induction ys) (auto simp: sub_self_not_positive)

lemma filter_arraySort_stable:
  "filter (\<lambda>e. k e = v) (arraySort (\<lambda>a b. sub (k a) (k b)) xs) = filter (\<lambda>e. k e = v) xs"
  by (induction xs) (auto simp: arraySort_def filter_insertSorted_stable)

lemma fillDistMap_other:
  "key \<notin> event_id ` set es \<Longrightarrow> fillDistMap M origin es m key = m key"
  by (induction es arbitrary: m) auto

lemma fillDistMap_lookup:
  "distinct (map event_id es) \<Longrightarrow> e \<in> set es \<Longrightarrow>
   fillDistMap M origin es m (event_id e) = Some (computedDistance M origin e)"
proof (induction es arbitrary: m)
  case Nil
  then show ?case by simp
next
  case (Cons x es)
  show ?case
  proof (cases "e = x")
    case True
    with Cons.prems show ?thesis by (simp add: fillDistMap_other)
  next
    case False
    with Cons show ?thesis by simp
  qed
qed

lemma distinct_dateFiltered:
  "distinct (map event_id events) \<Longrightarrow> distinct (map event_id (dateFiltered dateFilter events))"
  by (simp add: dateFiltered_def distinct_map_filter)

lemma distMap_lookup:
  "distinct (map event_id events) \<Longrightarrow> e \<in> set (dateFiltered dateFilter events) \<Longrightarrow>
   nullish (distances M events dateFilter (Some origin) (event_id e)) PosInfinity =
     computedDistance M origin e"
  by (simp add: distances_def nullish_def fillDistMap_lookup distinct_dateFiltered)

lemma sorted_part:
  assumes "distinct (map event_id events)"
  shows "arraySort (\<lambda>a b. sub (nullish (distances M events dateFilter (Some origin) (event_id a)) PosInfinity)
                              (nullish (distances M events dateFilter (Some origin) (event_id b)) PosInfinity))
           (dateFiltered dateFilter events) =
         arraySort (\<lambda>a b. sub (computedDistance M origin a) (computedDistance M origin b))
           (dateFiltered dateFilter events)"
  by (rule arraySort_cong) (simp add: distMap_lookup [OF assms])

lemma computedDistance_distanceToOrigin:
  "computedDistance M origin e = distanceToOrigin M origin e"
  by (simp add: computedDistance_def distanceToOrigin_def getLocationCoords_def
      split: option.splits)

lemma distanceToOrigin_no_coordinates:
  "\<not> hasStoredCoordinates e \<Longrightarrow> distanceToOrigin M origin e = PosInfinity"
  by (auto simp: hasStoredCoordinates_def distanceToOrigin_def split: option.splits)

lemma haversineMiles_exact_same_point:
  "haversineMiles exactArith (Num a) (Num b) (Num a) (Num b) = Num 0"
  by (simp add: haversineMiles_def exactArith_def minusDouble_def Math_PI_def Math_sin_def
      Math_cos_def Math_sqrt_def Math_atan2_def)

lemma digit_no_space_no_sign:
  "isDigit c \<Longrightarrow> \<not> isWhiteSpace c \<and> c \<noteq> CHR ''-'' \<and> c \<noteq> CHR ''+''"
  by (auto simp: isDigit_def isWhiteSpace_def)

lemma parseInt_digits:
  assumes "s \<noteq> []" "\<forall>c \<in> set s. isDigit c"
  shows "parseInt s = numberOfNat (digitsValue 0 s)"
proof -
  obtain c r where s: "s = c # r" using assms(1) by (cases s) auto
  have c: "\<not> isWhiteSpace c" "c \<noteq> CHR ''-''" "c \<noteq> CHR ''+''"
    using assms(2) digit_no_space_no_sign [of c] by (auto simp: s)
  have t: "takeWhile isDigit s = s"
    using assms(2) by (simp add: takeWhile_eq_all_conv)
  have d: "dropWhile isWhiteSpace s = s"
    using c by (simp add: s)
  have r: "isDigit c" "takeWhile isDigit r = r"
    using assms(2) by (simp_all add: s takeWhile_eq_all_conv)
  show ?thesis
    unfolding parseInt_def Let_def d
    using c r(1) by (simp add: s r(2) del: takeWhile_eq_all_conv)
qed

lemma parseInt_10: "parseInt ''10'' = Num 10"
proof -
  have "numberOfNat 10 = Num (real 10)"
    by (rule numberOfNat_small) simp
  moreover have "parseInt ''10'' = numberOfNat (digitsValue 0 ''10'')"
    by (rule parseInt_digits) (simp_all add: isDigit_def)
  ultimately show ?thesis by simp
qed

lemma parseInt_25: "parseInt ''25'' = Num 25"
proof -
  have "numberOfNat 25 = Num (real 25)"
    by (rule numberOfNat_small) simp
  moreover have "parseInt ''25'' = numberOfNat (digitsValue 0 ''25'')"
    by (rule parseInt_digits) (simp_all add: isDigit_def)
  ultimately show ?thesis by simp
qed

lemma parseInt_50: "parseInt ''50'' = Num 50"
proof -
  have "numberOfNat 50 = Num (real 50)"
    by (rule numberOfNat_small) simp
  moreover have "parseInt ''50'' = numberOfNat (digitsValue 0 ''50'')"
    by (rule parseInt_digits) (simp_all add: isDigit_def)
  ultimately show ?thesis by simp
qed

lemma parseInt_100: "parseInt ''100'' = Num 100"
proof -
  have "numberOfNat 100 = Num (real 100)"
    by (rule numberOfNat_small) simp
  moreover have "parseInt ''100'' = numberOfNat (digitsValue 0 ''100'')"
    by (rule parseInt_digits) (simp_all add: isDigit_def)
  ultimately show ?thesis by simp
qed

lemma digitsValue_zeros: "digitsValue acc (replicate n CHR ''0'') = acc * 10 ^ n"
  by (induction n arbitrary: acc) simp_all

lemma parseInt_overflow: "parseInt (CHR ''1'' # replicate 309 CHR ''0'') = PosInfinity"
proof -
  let ?zs = "replicate 309 CHR ''0''"
  have "(2::nat) ^ 1024 \<le> 1 * 10 ^ 309" by simp
  then have n: "numberOfNat (1 * 10 ^ 309) = PosInfinity"
    by (rule numberOfNat_overflow)
  have d: "digitsValue 0 (CHR ''1'' # ?zs) = 1 * 10 ^ 309"
    using digitsValue_zeros [of 1 309] by simp
  have "parseInt (CHR ''1'' # ?zs) = numberOfNat (digitsValue 0 (CHR ''1'' # ?zs))"
    by (rule parseInt_digits) (simp_all add: isDigit_def)
  with d n show ?thesis by (simp only:)
qed

text \<open>
  Claim C1, as it is stated, fails in two ways. \<^verbatim>\<open>distMap\<close> holds one distance per
  identifier, the one of the last event that carries it: of two events with one
  identifier the first, which has no location, is kept within 10 miles because the
  second lies at the origin. And a radius string of 310 digits parses to
  \<^verbatim>\<open>Infinity\<close>, which is above zero and not below the sentinel: the event without
  coordinates stays.
\<close>

theorem radius_keeps_event_without_coordinates:
  "filteredAndSortedEvents exactArith
     [\<lparr>event_id = ''x'', event_date = ''2026-03-06'', location = None\<rparr>,
      \<lparr>event_id = ''x'', event_date = ''2026-03-13'',
        location = Some \<lparr>loc_name = None, loc_city = None, loc_state = None, loc_zip = None,
                          loc_lat = Some (Num 38), loc_lng = Some (Num (- 90))\<rparr>\<rparr>]
     [] (Some \<lparr>lat = Num 38, lng = Num (- 90)\<rparr>) ''10''
   = [\<lparr>event_id = ''x'', event_date = ''2026-03-06'', location = None\<rparr>,
      \<lparr>event_id = ''x'', event_date = ''2026-03-13'',
        location = Some \<lparr>loc_name = None, loc_city = None, loc_state = None, loc_zip = None,
                          loc_lat = Some (Num 38), loc_lng = Some (Num (- 90))\<rparr>\<rparr>]
   \<and> \<not> hasStoredCoordinates \<lparr>event_id = ''x'', event_date = ''2026-03-06'', location = None\<rparr>
   \<and> filteredAndSortedEvents exactArith
     [\<lparr>event_id = ''y'', event_date = ''2026-03-06'', location = None\<rparr>]
     [] (Some \<lparr>lat = Num 38, lng = Num (- 90)\<rparr>) (CHR ''1'' # replicate 309 CHR ''0'')
   = [\<lparr>event_id = ''y'', event_date = ''2026-03-06'', location = None\<rparr>]"
proof -
  have ne: "CHR ''1'' # replicate 309 CHR ''0'' \<noteq> []" by simp
  show ?thesis
    using ne
    by (simp add: filteredAndSortedEvents_def dateFiltered_def distances_def arraySort_def
        computedDistance_def getLocationCoords_def nullish_def parseInt_10 parseInt_overflow
        haversineMiles_exact_same_point hasStoredCoordinates_def
        del: replicate.simps)
qed

lemma engine_with_origin:
  assumes d: "distinct (map event_id events)"
  shows "filteredAndSortedEvents M events dateFilter (Some origin) withinMiles =
     (let sorted = arraySort (\<lambda>a b. sub (distanceToOrigin M origin a) (distanceToOrigin M origin b))
                     (filter (\<lambda>e. dateFilter = [] \<or> event_date e = dateFilter) events)
      in if withinMiles \<noteq> [] \<and> isPositive (parseInt withinMiles)
         then filter (\<lambda>e. lessEq (distanceToOrigin M origin e) (parseInt withinMiles)) sorted
         else sorted)"
proof -
  let ?dm = "distances M events dateFilter (Some origin)"
  let ?sorted = "arraySort (\<lambda>a b. sub (computedDistance M origin a) (computedDistance M origin b))
                     (dateFiltered dateFilter events)"
  have df: "dateFiltered dateFilter events =
              filter (\<lambda>e. dateFilter = [] \<or> event_date e = dateFilter) events"
    by (simp add: dateFiltered_def)
  have "filter (\<lambda>e. lessEq (nullish (?dm (event_id e)) PosInfinity) n) ?sorted =
        filter (\<lambda>e. lessEq (computedDistance M origin e) n) ?sorted" for n
    by (rule filter_cong) (simp_all add: set_arraySort distMap_lookup [OF d])
  then have "filteredAndSortedEvents M events dateFilter (Some origin) withinMiles =
     (if withinMiles \<noteq> [] \<and> isPositive (parseInt withinMiles)
         then filter (\<lambda>e. lessEq (computedDistance M origin e) (parseInt withinMiles)) ?sorted
         else ?sorted)"
    by (simp add: filteredAndSortedEvents_def sorted_part [OF d] Let_def)
  then show ?thesis
    by (simp only: computedDistance_distanceToOrigin df Let_def)
qed

text \<open>
  Claim C1, amended. Let the identifiers of the events be pairwise distinct. When the
  origin resolved to coordinates and the radius setting parses to a finite number
  \<open>N > 0\<close>, the output holds exactly the events that pass the date filter and whose
  distance to the origin is at most \<open>N\<close>, each as often as the input does; an event
  without stored coordinates is never in the output. The values of the radius control,
  10, 25, 50 and 100, parse to these numbers.
\<close>

theorem radius_keeps_exactly_events_within:
  assumes "distinct (map event_id events)"
    and "parseInt withinMiles = Num N" and "N > 0"
  shows "mset (filteredAndSortedEvents M events dateFilter (Some origin) withinMiles) =
           mset (filter (\<lambda>e. (dateFilter = [] \<or> event_date e = dateFilter)
                              \<and> lessEq (distanceToOrigin M origin e) (Num N)) events)
         \<and> (\<forall>e \<in> set (filteredAndSortedEvents M events dateFilter (Some origin) withinMiles).
               hasStoredCoordinates e)
         \<and> map parseInt [''10'', ''25'', ''50'', ''100''] = [Num 10, Num 25, Num 50, Num 100]"
proof -
  let ?within = "\<lambda>e. lessEq (distanceToOrigin M origin e) (Num N)"
  let ?sorted = "arraySort (\<lambda>a b. sub (distanceToOrigin M origin a) (distanceToOrigin M origin b))
                     (filter (\<lambda>e. dateFilter = [] \<or> event_date e = dateFilter) events)"
  have ne: "withinMiles \<noteq> []"
    using assms(2) by (auto simp: parseInt_def)
  have out: "filteredAndSortedEvents M events dateFilter (Some origin) withinMiles = filter ?within ?sorted"
    using assms ne by (simp add: engine_with_origin)
  have "mset (filter ?within ?sorted) =
          mset (filter ?within (filter (\<lambda>e. dateFilter = [] \<or> event_date e = dateFilter) events))"
    by (simp add: mset_arraySort filter_filter_mset conj_commute)
  then have "mset (filter ?within ?sorted) =
          mset (filter (\<lambda>e. (dateFilter = [] \<or> event_date e = dateFilter) \<and> ?within e) events)"
    by (simp only: filter_filter)
  moreover have "\<forall>e \<in> set (filter ?within ?sorted). hasStoredCoordinates e"
    using distanceToOrigin_no_coordinates [of _ M origin] by fastforce
  moreover have "map parseInt [''10'', ''25'', ''50'', ''100''] = [Num 10, Num 25, Num 50, Num 100]"
    by (simp add: parseInt_10 parseInt_25 parseInt_50 parseInt_100)
  ultimately show ?thesis
    unfolding out by blast
qed

theorem radius_keeps_exactly_events_within_witness:
  "mset (filteredAndSortedEvents exactArith
     [\<lparr>event_id = ''unknown'', event_date = ''2026-03-06'',
        location = Some \<lparr>loc_name = None, loc_city = None, loc_state = None, loc_zip = None,
                          loc_lat = None, loc_lng = Some (Num (- 90))\<rparr>\<rparr>,
      \<lparr>event_id = ''here'', event_date = ''2026-03-06'',
        location = Some \<lparr>loc_name = None, loc_city = None, loc_state = None, loc_zip = None,
                          loc_lat = Some (Num 38), loc_lng = Some (Num (- 90))\<rparr>\<rparr>,
      \<lparr>event_id = ''later'', event_date = ''2026-03-13'',
        location = Some \<lparr>loc_name = None, loc_city = None, loc_state = None, loc_zip = None,
                          loc_lat = Some (Num 38), loc_lng = Some (Num (- 90))\<rparr>\<rparr>]
     ''2026-03-06'' (Some \<lparr>lat = Num 38, lng = Num (- 90)\<rparr>) ''10'')
   = {#\<lparr>event_id = ''here'', event_date = ''2026-03-06'',
        location = Some \<lparr>loc_name = None, loc_city = None, loc_state = None, loc_zip = None,
                          loc_lat = Some (Num 38), loc_lng = Some (Num (- 90))\<rparr>\<rparr>#}"
  using radius_keeps_exactly_events_within [OF _ parseInt_10, of
     "[\<lparr>event_id = ''unknown'', event_date = ''2026-03-06'',
        location = Some \<lparr>loc_name = None, loc_city = None, loc_state = None, loc_zip = None,
                          loc_lat = None, loc_lng = Some (Num (- 90))\<rparr>\<rparr>,
      \<lparr>event_id = ''here'', event_date = ''2026-03-06'',
        location = Some \<lparr>loc_name = None, loc_city = None, loc_state = None, loc_zip = None,
                          loc_lat = Some (Num 38), loc_lng = Some (Num (- 90))\<rparr>\<rparr>,
      \<lparr>event_id = ''later'', event_date = ''2026-03-13'',
        location = Some \<lparr>loc_name = None, loc_city = None, loc_state = None, loc_zip = None,
                          loc_lat = Some (Num 38), loc_lng = Some (Num (- 90))\<rparr>\<rparr>]"
     exactArith "''2026-03-06''" "\<lparr>lat = Num 38, lng = Num (- 90)\<rparr>"]
  by (simp add: distanceToOrigin_def haversineMiles_exact_same_point)

text \<open>
  Claim C2, as it is stated, fails in two ways. Of two events with one identifier the
  first, which has no location, is sorted by the distance of the second and stays
  before it, though the second lies at the origin. And when the origin is not a number
  (\<^verbatim>\<open>parseFloat\<close> of a malformed latitude), the distance of every located event is NaN,
  every comparison is NaN, and the list stays as it was: the sentinel before NaN.
\<close>

theorem unsorted_on_shared_identifier_or_NaN:
  "filteredAndSortedEvents exactArith
     [\<lparr>event_id = ''x'', event_date = ''2026-03-06'', location = None\<rparr>,
      \<lparr>event_id = ''x'', event_date = ''2026-03-13'',
        location = Some \<lparr>loc_name = None, loc_city = None, loc_state = None, loc_zip = None,
                          loc_lat = Some (Num 38), loc_lng = Some (Num (- 90))\<rparr>\<rparr>]
     [] (Some \<lparr>lat = Num 38, lng = Num (- 90)\<rparr>) []
   = [\<lparr>event_id = ''x'', event_date = ''2026-03-06'', location = None\<rparr>,
      \<lparr>event_id = ''x'', event_date = ''2026-03-13'',
        location = Some \<lparr>loc_name = None, loc_city = None, loc_state = None, loc_zip = None,
                          loc_lat = Some (Num 38), loc_lng = Some (Num (- 90))\<rparr>\<rparr>]
   \<and> distanceToOrigin exactArith \<lparr>lat = Num 38, lng = Num (- 90)\<rparr>
       \<lparr>event_id = ''x'', event_date = ''2026-03-06'', location = None\<rparr> = PosInfinity
   \<and> distanceToOrigin exactArith \<lparr>lat = Num 38, lng = Num (- 90)\<rparr>
       \<lparr>event_id = ''x'', event_date = ''2026-03-13'',
        location = Some \<lparr>loc_name = None, loc_city = None, loc_state = None, loc_zip = None,
                          loc_lat = Some (Num 38), loc_lng = Some (Num (- 90))\<rparr>\<rparr> = Num 0
   \<and> \<not> lessEq PosInfinity (Num 0)
   \<and> filteredAndSortedEvents exactArith
     [\<lparr>event_id = ''a'', event_date = ''2026-03-06'', location = None\<rparr>,
      \<lparr>event_id = ''b'', event_date = ''2026-03-06'',
        location = Some \<lparr>loc_name = None, loc_city = None, loc_state = None, loc_zip = None,
                          loc_lat = Some (Num 38), loc_lng = Some (Num (- 90))\<rparr>\<rparr>]
     [] (Some \<lparr>lat = NaN, lng = Num (- 90)\<rparr>) []
   = [\<lparr>event_id = ''a'', event_date = ''2026-03-06'', location = None\<rparr>,
      \<lparr>event_id = ''b'', event_date = ''2026-03-06'',
        location = Some \<lparr>loc_name = None, loc_city = None, loc_state = None, loc_zip = None,
                          loc_lat = Some (Num 38), loc_lng = Some (Num (- 90))\<rparr>\<rparr>]
   \<and> distanceToOrigin exactArith \<lparr>lat = NaN, lng = Num (- 90)\<rparr>
       \<lparr>event_id = ''b'', event_date = ''2026-03-06'',
        location = Some \<lparr>loc_name = None, loc_city = None, loc_state = None, loc_zip = None,
                          loc_lat = Some (Num 38), loc_lng = Some (Num (- 90))\<rparr>\<rparr> = NaN
   \<and> \<not> lessEq PosInfinity NaN"
  by (simp add: filteredAndSortedEvents_def dateFiltered_def distances_def arraySort_def
      computedDistance_def getLocationCoords_def nullish_def distanceToOrigin_def
      haversineMiles_exact_same_point haversineMiles_NaN_origin)

text \<open>
  Claim C2, amended. Let the identifiers of the events be pairwise distinct and let no
  event that passes the date filter have the distance NaN. When the origin resolved to
  coordinates, the output is sorted ascending by distance; for every distance, the
  output's events at that distance stand in the order the input list has them (the sort
  is stable); and every event without stored coordinates comes after every event whose
  distance is finite.
\<close>

theorem sorted_by_distance_stable:
  assumes "distinct (map event_id events)"
    and "\<forall>e \<in> set events. (dateFilter = [] \<or> event_date e = dateFilter)
           \<longrightarrow> distanceToOrigin M origin e \<noteq> NaN"
    and "out = filteredAndSortedEvents M events dateFilter (Some origin) withinMiles"
  shows "sorted_wrt (\<lambda>a b. lessEq (distanceToOrigin M origin a) (distanceToOrigin M origin b)) out
       \<and> (\<forall>v. filter (\<lambda>e. distanceToOrigin M origin e = v) out =
               filter (\<lambda>e. distanceToOrigin M origin e = v \<and> e \<in> set out) events)
       \<and> (\<forall>i j d. i < length out \<and> j < length out \<and> \<not> hasStoredCoordinates (out ! i)
                  \<and> distanceToOrigin M origin (out ! j) = Num d \<longrightarrow> j < i)"
proof -
  let ?cd = "distanceToOrigin M origin"
  let ?le = "\<lambda>a b. lessEq (?cd a) (?cd b)"
  let ?datep = "\<lambda>e. dateFilter = [] \<or> event_date e = dateFilter"
  let ?list1 = "filter ?datep events"
  let ?sorted = "arraySort (\<lambda>a b. sub (?cd a) (?cd b)) ?list1"
  obtain keep where out: "out = filter keep ?sorted"
  proof (cases "withinMiles \<noteq> [] \<and> isPositive (parseInt withinMiles)")
    case True
    then have "out = filter (\<lambda>e. lessEq (?cd e) (parseInt withinMiles)) ?sorted"
      using assms by (simp add: engine_with_origin)
    then show ?thesis by (rule that)
  next
    case False
    then have "out = filter (\<lambda>e. True) ?sorted"
      using assms by (auto simp: engine_with_origin)
    then show ?thesis by (rule that)
  qed
  have "\<forall>e \<in> set ?list1. ?cd e \<noteq> NaN"
    using assms(2) by auto
  then have "sorted_wrt ?le ?sorted"
    by (rule sorted_arraySort)
  then have s: "sorted_wrt ?le out"
    unfolding out by (rule sorted_wrt_filter)
  have setout: "set out = {e \<in> set events. ?datep e \<and> keep e}"
    by (auto simp: out set_arraySort)
  have st: "filter (\<lambda>e. ?cd e = v) out = filter (\<lambda>e. ?cd e = v \<and> e \<in> set out) events" for v
  proof -
    have "filter (\<lambda>e. ?cd e = v) out = filter keep (filter (\<lambda>e. ?cd e = v) ?sorted)"
      unfolding out by (simp add: conj_commute)
    also have "\<dots> = filter keep (filter (\<lambda>e. ?cd e = v) (filter ?datep events))"
      by (simp only: filter_arraySort_stable)
    also have "\<dots> = filter (\<lambda>e. ?cd e = v \<and> e \<in> set out) events"
      unfolding filter_filter by (rule filter_cong) (auto simp: setout)
    finally show ?thesis .
  qed
  have last: "j < i" if "i < length out" "j < length out" "\<not> hasStoredCoordinates (out ! i)"
      "?cd (out ! j) = Num d" for i j d
  proof (rule ccontr)
    assume "\<not> j < i"
    moreover have "i \<noteq> j"
      using that distanceToOrigin_no_coordinates [of "out ! i" M origin] by auto
    ultimately have "i < j" by simp
    with s that(2) have "?le (out ! i) (out ! j)"
      unfolding sorted_wrt_iff_nth_less by blast
    with that(3,4) show False
      by (simp add: distanceToOrigin_no_coordinates)
  qed
  from s st last show ?thesis by blast
qed

theorem sorted_by_distance_stable_witness:
  "filteredAndSortedEvents exactArith
     [\<lparr>event_id = ''a'', event_date = ''2026-03-06'', location = None\<rparr>,
      \<lparr>event_id = ''b'', event_date = ''2026-03-06'',
        location = Some \<lparr>loc_name = None, loc_city = None, loc_state = None, loc_zip = None,
                          loc_lat = Some (Num 38), loc_lng = Some (Num (- 90))\<rparr>\<rparr>,
      \<lparr>event_id = ''c'', event_date = ''2026-03-13'',
        location = Some \<lparr>loc_name = None, loc_city = None, loc_state = None, loc_zip = None,
                          loc_lat = Some (Num 38), loc_lng = Some (Num (- 90))\<rparr>\<rparr>]
     [] (Some \<lparr>lat = Num 38, lng = Num (- 90)\<rparr>) []
   = [\<lparr>event_id = ''b'', event_date = ''2026-03-06'',
        location = Some \<lparr>loc_name = None, loc_city = None, loc_state = None, loc_zip = None,
                          loc_lat = Some (Num 38), loc_lng = Some (Num (- 90))\<rparr>\<rparr>,
      \<lparr>event_id = ''c'', event_date = ''2026-03-13'',
        location = Some \<lparr>loc_name = None, loc_city = None, loc_state = None, loc_zip = None,
                          loc_lat = Some (Num 38), loc_lng = Some (Num (- 90))\<rparr>\<rparr>,
      \<lparr>event_id = ''a'', event_date = ''2026-03-06'', location = None\<rparr>]
   \<and> sorted_wrt (\<lambda>a b. lessEq (distanceToOrigin exactArith \<lparr>lat = Num 38, lng = Num (- 90)\<rparr> a)
                             (distanceToOrigin exactArith \<lparr>lat = Num 38, lng = Num (- 90)\<rparr> b))
     [\<lparr>event_id = ''b'', event_date = ''2026-03-06'',
        location = Some \<lparr>loc_name = None, loc_city = None, loc_state = None, loc_zip = None,
                          loc_lat = Some (Num 38), loc_lng = Some (Num (- 90))\<rparr>\<rparr>,
      \<lparr>event_id = ''c'', event_date = ''2026-03-13'',
        location = Some \<lparr>loc_name = None, loc_city = None, loc_state = None, loc_zip = None,
                          loc_lat = Some (Num 38), loc_lng = Some (Num (- 90))\<rparr>\<rparr>,
      \<lparr>event_id = ''a'', event_date = ''2026-03-06'', location = None\<rparr>]"
proof -
  let ?o = "\<lparr>lat = Num 38, lng = Num (- 90)\<rparr>"
  let ?evs = "[\<lparr>event_id = ''a'', event_date = ''2026-03-06'', location = None\<rparr>,
      \<lparr>event_id = ''b'', event_date = ''2026-03-06'',
        location = Some \<lparr>loc_name = None, loc_city = None, loc_state = None, loc_zip = None,
                          loc_lat = Some (Num 38), loc_lng = Some (Num (- 90))\<rparr>\<rparr>,
      \<lparr>event_id = ''c'', event_date = ''2026-03-13'',
        location = Some \<lparr>loc_name = None, loc_city = None, loc_state = None, loc_zip = None,
                          loc_lat = Some (Num 38), loc_lng = Some (Num (- 90))\<rparr>\<rparr>]"
  have d: "distinct (map event_id ?evs)" by simp
  have n: "\<forall>e \<in> set ?evs. ([] = [] \<or> event_date e = [])
           \<longrightarrow> distanceToOrigin exactArith ?o e \<noteq> NaN"
    by (simp add: distanceToOrigin_def haversineMiles_exact_same_point)
  have e: "filteredAndSortedEvents exactArith ?evs [] (Some ?o) []
   = [\<lparr>event_id = ''b'', event_date = ''2026-03-06'',
        location = Some \<lparr>loc_name = None, loc_city = None, loc_state = None, loc_zip = None,
                          loc_lat = Some (Num 38), loc_lng = Some (Num (- 90))\<rparr>\<rparr>,
      \<lparr>event_id = ''c'', event_date = ''2026-03-13'',
        location = Some \<lparr>loc_name = None, loc_city = None, loc_state = None, loc_zip = None,
                          loc_lat = Some (Num 38), loc_lng = Some (Num (- 90))\<rparr>\<rparr>,
      \<lparr>event_id = ''a'', event_date = ''2026-03-06'', location = None\<rparr>]"
    by (simp add: filteredAndSortedEvents_def dateFiltered_def distances_def arraySort_def
        computedDistance_def getLocationCoords_def nullish_def haversineMiles_exact_same_point)
  from sorted_by_distance_stable [OF d n e [symmetric]] e show ?thesis
    by blast
qed

text \<open>
  Claim C3. When the origin did not resolve (\<^verbatim>\<open>originCoords\<close> is null), any two radius
  settings give the same output: the date-filtered input list in its original order.
\<close>

theorem radius_ignored_without_origin:
  "filteredAndSortedEvents M events dateFilter None withinMiles1 =
     filteredAndSortedEvents M events dateFilter None withinMiles2
   \<and> filteredAndSortedEvents M events dateFilter None withinMiles1 =
     (if dateFilter = [] then events else filter (\<lambda>e. event_date e = dateFilter) events)"
  by (simp add: filteredAndSortedEvents_def dateFiltered_def Let_def)

section \<open>Properties of the city names\<close>

lemma includes_str_sublist: "includes_str s t = sublist t s"
  by (induction s) (auto simp: sublist_Cons_right)

text \<open>
  Claim C6. For all strings \<open>a\<close> and \<open>b\<close>, \<open>citiesMatch a b\<close> is false when either
  normalised name is empty, and otherwise it is true exactly when one normalised name
  occurs inside the other as a contiguous substring. ``Saint Louis'' matches ``Louis'';
  ``Kansas City'' does not match ``Jefferson City''.
\<close>

theorem citiesMatch_bidirectional_containment:
  "citiesMatch a b =
     (normalizeCityName a \<noteq> [] \<and> normalizeCityName b \<noteq> []
      \<and> (sublist (normalizeCityName b) (normalizeCityName a)
           \<or> sublist (normalizeCityName a) (normalizeCityName b)))
   \<and> citiesMatch ''Saint Louis'' ''Louis''
   \<and> \<not> citiesMatch ''Kansas City'' ''Jefferson City''"
proof -
  have "citiesMatch a b =
     (normalizeCityName a \<noteq> [] \<and> normalizeCityName b \<noteq> []
      \<and> (sublist (normalizeCityName b) (normalizeCityName a)
           \<or> sublist (normalizeCityName a) (normalizeCityName b)))"
    by (simp add: citiesMatch_def Let_def includes_str_sublist)
  moreover have "citiesMatch ''Saint Louis'' ''Louis''"
    by code_simp
  moreover have "\<not> citiesMatch ''Kansas City'' ''Jefferson City''"
    by code_simp
  ultimately show ?thesis by blast
qed

text \<open>
  Claim C5 says that ``St. Louis'', ``Saint Louis'' and ``st louis'' normalise to one
  string. The code gives two: in \<^verbatim>\<open>/\bst\.?\b/\<close> the dot can only be taken when a word
  character follows it, because \<^verbatim>\<open>\b\<close> never holds between a dot and a space. So the
  dot of ``St. Louis'' stays, and the two spellings do not even match as cities.
\<close>

theorem normalizeCityName_keeps_dot_after_st:
  "normalizeCityName ''St. Louis'' = ''saint. louis''
   \<and> normalizeCityName ''Saint Louis'' = ''saint louis''
   \<and> normalizeCityName ''st louis'' = ''saint louis''
   \<and> normalizeCityName ''St. Louis'' \<noteq> normalizeCityName ''Saint Louis''
   \<and> \<not> citiesMatch ''St. Louis'' ''Saint Louis''"
  by code_simp


subsection \<open>A second normalisation changes nothing\<close>

lemma trim_trim: "trim (trim s) = trim s"
proof -
  let ?t = "dropWhile isWhiteSpace s"
  let ?u = "dropWhile isWhiteSpace (rev ?t)"
  have "dropWhile isWhiteSpace (rev ?u) = rev ?u"
  proof (cases "?u = []")
    case True
    show ?thesis unfolding True by simp
  next
    case False
    then have "?t \<noteq> []"
      by (metis dropWhile.simps(1) rev.simps(1))
    then have h: "\<not> isWhiteSpace (hd ?t)"
      by (rule hd_dropWhile)
    have "rev ?t = takeWhile isWhiteSpace (rev ?t) @ ?u" by simp
    then have "last ?u = last (rev ?t)"
      using False by (metis last_appendR)
    also have "\<dots> = hd ?t"
      using \<open>?t \<noteq> []\<close> by (simp add: last_rev)
    finally have "hd (rev ?u) = hd ?t"
      using False by (simp add: hd_rev)
    with h False show ?thesis
      by (cases "rev ?u") auto
  qed
  then show ?thesis
    by (simp add: trim_def)
qed

lemma whitespace_not_word: "isWhiteSpace c \<Longrightarrow> \<not> isWordChar c"
  by (auto simp: isWhiteSpace_def isWordChar_def Let_def)

lemma dot_not_word: "\<not> isWordChar CHR ''.''"
  by (simp add: isWordChar_def)

lemma toLowerCaseChar_idem: "toLowerCaseChar (toLowerCaseChar c) = toLowerCaseChar c"
proof -
  have "of_char (char_of (of_char c + 32 :: nat)) = (of_char c + 32 :: nat)"
    if "(of_char c :: nat) \<le> 222"
    using that by simp
  then show ?thesis
    by (auto simp: toLowerCaseChar_def Let_def)
qed

lemma takeWhile_wordy_append: "wordy x \<Longrightarrow> takeWhile isWordChar (x @ rest) = x @ takeWhile isWordChar rest"
  by (simp add: wordy_def list_all_iff takeWhile_append2)

lemma matchAbbrev_None_iff:
  assumes "wordy x"
  shows "(matchAbbrev x p s = None) = (p \<or> takeWhile isWordChar s \<noteq> x)"
proof (cases "prefix x s")
  case False
  have "takeWhile isWordChar s \<noteq> x"
    using False by (metis prefix_def takeWhile_dropWhile_id)
  with False show ?thesis by (simp add: matchAbbrev_def)
next
  case True
  then obtain rest where s: "s = x @ rest" by (auto simp: prefix_def)
  have hd: "isWordChar (hd x)" "x \<noteq> []" "isWordChar (last x)"
    using assms by (auto simp: wordy_def list_all_iff)
  then have wb: "wordBoundary p s = (\<not> p)"
    by (cases x) (auto simp: wordBoundary_def s)
  have tw: "(takeWhile isWordChar s = x) = (rest = [] \<or> \<not> isWordChar (hd rest))"
    using assms takeWhile_wordy_append [OF assms, of rest] by (cases rest) (auto simp: s)
  show ?thesis
    using hd wb tw True
    by (cases rest) (auto simp: matchAbbrev_def s wordBoundary_def dot_not_word)
qed

lemma matchAbbrev_Some:
  assumes "wordy x" "matchAbbrev x p s = Some m"
  shows "\<not> p \<and> takeWhile isWordChar s = x \<and>
         (m = length x \<or> (m = Suc (length x) \<and> length x < length s \<and> s ! length x = CHR ''.''))"
proof -
  have a: "\<not> p" "takeWhile isWordChar s = x"
    using matchAbbrev_None_iff [OF assms(1), of p s] assms(2) by auto
  then obtain rest where s: "s = x @ rest"
    by (metis takeWhile_dropWhile_id)
  from assms(2) have "m = length x \<or> (m = Suc (length x) \<and> length x < length s \<and> s ! length x = CHR ''.'')"
    by (cases rest) (auto simp: matchAbbrev_def s Let_def split: if_splits)
  with a show ?thesis by blast
qed

lemma replaceAbbrev_no_match:
  "matchAbbrev x p (c # cs) = None \<Longrightarrow>
   replaceAbbrev x r p (c # cs) = c # replaceAbbrev x r (isWordChar c) cs"
  by simp

lemma replaceAbbrev_match:
  "matchAbbrev x p (c # cs) = Some (Suc n) \<Longrightarrow>
   replaceAbbrev x r p (c # cs) = r @ replaceAbbrev x r (isWordChar ((c # cs) ! n)) (drop n cs)"
  by simp

lemma replaceAbbrev_noSite_id:
  "wordy x \<Longrightarrow> noSite x p s \<Longrightarrow> replaceAbbrev x r p s = s"
proof (induction s arbitrary: p)
  case Nil
  show ?case by simp
next
  case (Cons c cs)
  then have "matchAbbrev x p (c # cs) = None"
    by (simp add: matchAbbrev_None_iff)
  with Cons show ?case
    by (simp add: replaceAbbrev_no_match del: replaceAbbrev.simps)
qed

lemma takeWhile_replaceAbbrev_inside_word:
  "wordy x \<Longrightarrow> takeWhile isWordChar (replaceAbbrev x r True s) = takeWhile isWordChar s"
proof (induction s)
  case Nil
  show ?case by simp
next
  case (Cons c cs)
  then have "matchAbbrev x True (c # cs) = None"
    by (simp add: matchAbbrev_None_iff)
  with Cons show ?case
    by (simp add: replaceAbbrev_no_match del: replaceAbbrev.simps)
qed

lemma noSite_weaken: "noSite y False s \<Longrightarrow> noSite y True s"
  by (cases s) auto

lemma noSite_suffix:
  "noSite y p (a @ b) \<Longrightarrow> noSite y (if a = [] then p else isWordChar (last a)) b"
  by (induction a arbitrary: p) (auto split: if_splits)

lemma noSite_after_word:
  "list_all isWordChar u \<Longrightarrow> noSite y True t \<Longrightarrow> noSite y True (u @ t)"
  by (induction u) auto

lemma noSite_replacement:
  assumes "wordy r" "length y < length r" "noSite y True t"
  shows "noSite y p (r @ t)"
proof -
  obtain c u where r: "r = c # u" "isWordChar c" "list_all isWordChar u"
    using assms(1) by (cases r) (auto simp: wordy_def)
  have "length (takeWhile isWordChar (r @ t)) \<ge> length r"
    using takeWhile_wordy_append [OF assms(1), of t] by simp
  with assms(2) have "takeWhile isWordChar (r @ t) \<noteq> y" by auto
  moreover have "noSite y True (u @ t)"
    using r assms(3) by (rule_tac noSite_after_word)
  ultimately show ?thesis
    using r by simp
qed

lemma noSite_replaceAbbrev:
  assumes "wordy x" "wordy r" "length y < length r" "wordy y"
  shows "y = x \<or> noSite y p s \<Longrightarrow> noSite y p (replaceAbbrev x r p s)"
proof (induction "length s" arbitrary: s p rule: less_induct)
  case less
  show ?case
  proof (cases s)
    case Nil
    then show ?thesis by simp
  next
    case (Cons c cs)
    show ?thesis
    proof (cases "matchAbbrev x p (c # cs)")
      case None
      then have out: "replaceAbbrev x r p s = c # replaceAbbrev x r (isWordChar c) cs"
        unfolding Cons by (rule replaceAbbrev_no_match)
      have tl: "noSite y (isWordChar c) (replaceAbbrev x r (isWordChar c) cs)"
        using less.prems by (intro less.hyps) (auto simp: Cons)
      have hd: "p \<or> takeWhile isWordChar (c # replaceAbbrev x r (isWordChar c) cs) \<noteq> y"
      proof (cases "isWordChar c")
        case False
        have "y \<noteq> []"
          using assms(4) by (simp add: wordy_def)
        with False show ?thesis by simp
      next
        case True
        have "p \<or> takeWhile isWordChar (c # cs) \<noteq> y"
          using less.prems None matchAbbrev_None_iff [OF assms(1), of p "c # cs"]
          by (auto simp: Cons)
        with True show ?thesis
          by (simp add: takeWhile_replaceAbbrev_inside_word [OF assms(1)])
      qed
      from hd tl show ?thesis
        unfolding out by simp
    next
      case (Some m)
      from matchAbbrev_Some [OF assms(1) Some]
      have m: "\<not> p" "takeWhile isWordChar (c # cs) = x"
        "m = length x \<or> (m = Suc (length x) \<and> length x < length (c # cs) \<and> (c # cs) ! length x = CHR ''.'')"
        by auto
      have "x \<noteq> []" using assms(1) by (simp add: wordy_def)
      with m obtain n where n: "m = Suc n" by (cases m) auto
      have nlen: "n < length (c # cs)"
      proof -
        have "length (takeWhile isWordChar (c # cs)) \<le> length (c # cs)"
          by (rule length_takeWhile_le)
        then have "length x \<le> length (c # cs)"
          by (simp only: m(2))
        with m(3) n show ?thesis by auto
      qed
      let ?flag = "isWordChar ((c # cs) ! n)"
      have out: "replaceAbbrev x r p s = r @ replaceAbbrev x r ?flag (drop n cs)"
        unfolding Cons using Some n by (simp del: replaceAbbrev.simps add: replaceAbbrev_match)
      have split: "c # cs = take (Suc n) (c # cs) @ drop n cs"
        by (metis append_take_drop_id drop_Suc_Cons)
      have lasttake: "last (take (Suc n) (c # cs)) = (c # cs) ! n"
        using nlen by (simp only: take_Suc_conv_app_nth last_snoc)
      have pre: "y = x \<or> noSite y ?flag (drop n cs)"
      proof (cases "y = x")
        case True
        then show ?thesis by simp
      next
        case False
        with less.prems have "noSite y p (take (Suc n) (c # cs) @ drop n cs)"
          using split Cons by simp
        from noSite_suffix [OF this] lasttake show ?thesis by simp
      qed
      have "noSite y ?flag (replaceAbbrev x r ?flag (drop n cs))"
        using pre by (intro less.hyps) (auto simp: Cons)
      then have "noSite y True (replaceAbbrev x r ?flag (drop n cs))"
        by (cases ?flag) (auto intro: noSite_weaken)
      from noSite_replacement [OF assms(2,3) this] show ?thesis
        unfolding out .
    qed
  qed
qed

lemma applyReplacements_Cons:
  "applyReplacements ((x, r) # table) s = applyReplacements table (replaceAbbrev x r False s)"
  by (simp add: applyReplacements_def)

lemma noSite_applyReplacements:
  assumes "wordy y"
    and "\<forall>(x, r) \<in> set table. wordy x \<and> wordy r \<and> length y < length r"
    and "y \<in> fst ` set table \<or> noSite y False s"
  shows "noSite y False (applyReplacements table s)"
  using assms(2,3)
proof (induction table arbitrary: s)
  case Nil
  then show ?case by (simp add: applyReplacements_def)
next
  case (Cons a table)
  obtain x r where a: "a = (x, r)" by (cases a)
  have xr: "wordy x" "wordy r" "length y < length r"
    using Cons.prems(1) a by auto
  show ?case
  proof (cases "y = x \<or> noSite y False s")
    case True
    then have "noSite y False (replaceAbbrev x r False s)"
      by (rule noSite_replaceAbbrev [OF xr assms(1)])
    then show ?thesis
      unfolding a applyReplacements_Cons using Cons.prems(1) by (intro Cons.IH) auto
  next
    case False
    with Cons.prems(2) have "y \<in> fst ` set table" by (auto simp: a)
    then show ?thesis
      unfolding a applyReplacements_Cons using Cons.prems(1) by (intro Cons.IH) auto
  qed
qed

lemma applyReplacements_id:
  "\<forall>(x, r) \<in> set table. wordy x \<and> noSite x False s \<Longrightarrow> applyReplacements table s = s"
proof (induction table)
  case Nil
  show ?case by (simp add: applyReplacements_def)
next
  case (Cons a table)
  obtain x r where a: "a = (x, r)" by (cases a)
  with Cons show ?case
    by (simp add: applyReplacements_Cons replaceAbbrev_noSite_id)
qed

lemma takeWhile_word_collapseWhitespace:
  "takeWhile isWordChar (collapseWhitespace s) = takeWhile isWordChar s"
proof (induction s rule: collapseWhitespace.induct)
  case 1
  show ?case by simp
next
  case (2 c cs)
  then show ?case
    using whitespace_not_word [of c] by (auto simp: isWordChar_def)
qed

lemma noSite_dropWhile_whitespace:
  "noSite y False s \<Longrightarrow> noSite y False (dropWhile isWhiteSpace s)"
  by (induction s) (auto dest: whitespace_not_word)

lemma noSite_collapseWhitespace:
  "wordy y \<Longrightarrow> noSite y p s \<Longrightarrow> noSite y p (collapseWhitespace s)"
proof (induction s arbitrary: p rule: collapseWhitespace.induct)
  case 1
  show ?case by simp
next
  case (2 c cs)
  show ?case
  proof (cases "isWhiteSpace c")
    case True
    then have nw: "\<not> isWordChar c" by (rule whitespace_not_word)
    with "2.prems" have "noSite y False (dropWhile isWhiteSpace cs)"
      by (auto intro: noSite_dropWhile_whitespace)
    then have "noSite y False (collapseWhitespace (dropWhile isWhiteSpace cs))"
      using True "2.prems"(1) by (intro "2.IH"(1))
    moreover have "y \<noteq> []" using "2.prems"(1) by (simp add: wordy_def)
    ultimately show ?thesis
      using True by (simp add: isWordChar_def)
  next
    case False
    have "noSite y (isWordChar c) (collapseWhitespace cs)"
      using False "2.prems" by (intro "2.IH"(2)) auto
    moreover have "takeWhile isWordChar (c # collapseWhitespace cs) = takeWhile isWordChar (c # cs)"
      by (simp add: takeWhile_word_collapseWhitespace)
    ultimately show ?thesis
      using False "2.prems"(2) by (simp del: takeWhile.simps)
  qed
qed

lemma noSite_drop_trailing_whitespace:
  "list_all isWhiteSpace w \<Longrightarrow> noSite y p (t @ w) \<Longrightarrow> noSite y p t"
proof (induction t arbitrary: p)
  case Nil
  show ?case by simp
next
  case (Cons c t)
  have "takeWhile isWordChar (c # t @ w) = takeWhile isWordChar (c # t)"
  proof (cases "list_all isWordChar (c # t)")
    case True
    have "takeWhile isWordChar w = []"
      using Cons.prems(1) by (cases w) (auto dest: whitespace_not_word)
    with True show ?thesis
      by (metis Cons_eq_appendI append.right_neutral list_all_iff takeWhile_append2 takeWhile_eq_all_conv)
  next
    case False
    then obtain z where "z \<in> set (c # t)" "\<not> isWordChar z"
      by (auto simp: list_all_iff)
    then show ?thesis
      by (metis Cons_eq_appendI takeWhile_append1)
  qed
  with Cons show ?case by (auto simp del: takeWhile.simps)
qed

lemma trim_decompose:
  "\<exists>w. list_all isWhiteSpace w \<and> dropWhile isWhiteSpace s = trim s @ w"
proof -
  let ?t = "dropWhile isWhiteSpace s"
  have "rev ?t = takeWhile isWhiteSpace (rev ?t) @ dropWhile isWhiteSpace (rev ?t)" by simp
  then have "?t = trim s @ rev (takeWhile isWhiteSpace (rev ?t))"
    unfolding trim_def by (metis rev_append rev_rev_ident)
  moreover have "list_all isWhiteSpace (rev (takeWhile isWhiteSpace (rev ?t)))"
    by (simp add: list_all_iff) (meson set_takeWhileD)
  ultimately show ?thesis by blast
qed

lemma noSite_trim: "noSite y False s \<Longrightarrow> noSite y False (trim s)"
proof -
  assume "noSite y False s"
  then have d: "noSite y False (dropWhile isWhiteSpace s)"
    by (rule noSite_dropWhile_whitespace)
  obtain w where "list_all isWhiteSpace w" "dropWhile isWhiteSpace s = trim s @ w"
    using trim_decompose by blast
  with d show ?thesis
    by (metis noSite_drop_trailing_whitespace)
qed

lemma lowered_toLowerCase: "lowered (toLowerCase s)"
  by (simp add: lowered_def toLowerCase_def list_all_iff toLowerCaseChar_idem)

lemma toLowerCase_lowered: "lowered s \<Longrightarrow> toLowerCase s = s"
  by (simp add: lowered_def toLowerCase_def list_all_iff map_idI)

lemma lowered_append: "lowered (a @ b) = (lowered a \<and> lowered b)"
  by (simp add: lowered_def)

lemma lowered_drop: "lowered s \<Longrightarrow> lowered (drop n s)"
  by (metis append_take_drop_id lowered_append)

lemma lowered_replaceAbbrev:
  "lowered r \<Longrightarrow> lowered s \<Longrightarrow> lowered (replaceAbbrev x r p s)"
proof (induction "length s" arbitrary: s p rule: less_induct)
  case less
  show ?case
  proof (cases s)
    case Nil
    then show ?thesis by (simp add: lowered_def)
  next
    case (Cons c cs)
    have cs: "lowered [c]" "lowered cs"
      using less.prems(2) by (simp_all add: Cons lowered_def)
    show ?thesis
    proof (cases "\<exists>n. matchAbbrev x p (c # cs) = Some (Suc n)")
      case True
      then obtain n where n: "matchAbbrev x p (c # cs) = Some (Suc n)" by blast
      have "lowered (replaceAbbrev x r (isWordChar ((c # cs) ! n)) (drop n cs))"
        using less.prems(1) cs by (intro less.hyps) (auto simp: Cons lowered_drop)
      with less.prems(1) show ?thesis
        unfolding Cons replaceAbbrev_match [OF n] by (simp add: lowered_append)
    next
      case False
      then have out: "replaceAbbrev x r p (c # cs) = c # replaceAbbrev x r (isWordChar c) cs"
        by (cases "matchAbbrev x p (c # cs)") (auto split: nat.splits)
      have "lowered (replaceAbbrev x r (isWordChar c) cs)"
        using less.prems(1) cs by (intro less.hyps) (auto simp: Cons)
      with cs show ?thesis
        unfolding Cons out by (simp add: lowered_def)
    qed
  qed
qed

lemma lowered_applyReplacements:
  "\<forall>(x, r) \<in> set table. lowered r \<Longrightarrow> lowered s \<Longrightarrow> lowered (applyReplacements table s)"
proof (induction table arbitrary: s)
  case Nil
  then show ?case by (simp add: applyReplacements_def)
next
  case (Cons a table)
  obtain x r where a: "a = (x, r)" by (cases a)
  with Cons show ?case
    by (simp add: applyReplacements_Cons lowered_replaceAbbrev)
qed

lemma space_lowered: "toLowerCaseChar CHR '' '' = CHR '' ''"
  by (simp add: toLowerCaseChar_def)

lemma lowered_dropWhile: "lowered s \<Longrightarrow> lowered (dropWhile P s)"
  by (metis lowered_append takeWhile_dropWhile_id)

lemma lowered_collapseWhitespace: "lowered s \<Longrightarrow> lowered (collapseWhitespace s)"
proof (induction s rule: collapseWhitespace.induct)
  case 1
  show ?case by (simp add: lowered_def)
next
  case (2 c cs)
  have cs: "lowered cs" "toLowerCaseChar c = c"
    using "2.prems" by (simp_all add: lowered_def)
  show ?case
  proof (cases "isWhiteSpace c")
    case True
    with 2 cs have "lowered (collapseWhitespace (dropWhile isWhiteSpace cs))"
      by (simp add: lowered_dropWhile)
    with True show ?thesis
      using space_lowered by (simp add: lowered_def)
  next
    case False
    with 2 cs show ?thesis by (simp add: lowered_def)
  qed
qed

lemma lowered_trim: "lowered s \<Longrightarrow> lowered (trim s)"
proof -
  assume "lowered s"
  then have "lowered (dropWhile isWhiteSpace s)" by (rule lowered_dropWhile)
  moreover obtain w where "dropWhile isWhiteSpace s = trim s @ w"
    using trim_decompose by blast
  ultimately show ?thesis by (simp add: lowered_append)
qed

lemma collapseWhitespace_head:
  "s \<noteq> [] \<Longrightarrow> \<not> isWhiteSpace (hd s) \<Longrightarrow>
   collapseWhitespace s \<noteq> [] \<and> hd (collapseWhitespace s) = hd s"
  by (cases s) auto

lemma okSpaces_collapseWhitespace: "okSpaces (collapseWhitespace s)"
proof (induction s rule: collapseWhitespace.induct)
  case 1
  show ?case by simp
next
  case (2 c cs)
  show ?case
  proof (cases "isWhiteSpace c")
    case True
    let ?t = "dropWhile isWhiteSpace cs"
    have "collapseWhitespace ?t = [] \<or> \<not> isWhiteSpace (hd (collapseWhitespace ?t))"
    proof (cases "?t = []")
      case True
      show ?thesis unfolding True by simp
    next
      case False
      then have "\<not> isWhiteSpace (hd ?t)" by (rule hd_dropWhile)
      with False collapseWhitespace_head [of ?t] show ?thesis by simp
    qed
    with True 2 show ?thesis by simp
  next
    case False
    have "collapseWhitespace cs = [] \<or> isWhiteSpace (hd (collapseWhitespace cs)) = isWhiteSpace (hd cs)"
      by (cases cs) (auto simp: isWhiteSpace_def)
    with False 2 show ?thesis by simp
  qed
qed

lemma collapseWhitespace_okSpaces: "okSpaces s \<Longrightarrow> collapseWhitespace s = s"
proof (induction s)
  case Nil
  show ?case by simp
next
  case (Cons c cs)
  show ?case
  proof (cases "isWhiteSpace c")
    case True
    with Cons.prems have "dropWhile isWhiteSpace cs = cs" "c = CHR '' ''"
      by (cases cs; auto)+
    with True Cons show ?thesis by simp
  next
    case False
    with Cons show ?thesis by simp
  qed
qed

lemma okSpaces_dropWhile: "okSpaces s \<Longrightarrow> okSpaces (dropWhile P s)"
  by (induction s) auto

lemma okSpaces_prefix: "okSpaces (t @ w) \<Longrightarrow> okSpaces t"
  by (induction t) (auto simp: hd_append)

lemma okSpaces_trim: "okSpaces s \<Longrightarrow> okSpaces (trim s)"
proof -
  assume "okSpaces s"
  then have "okSpaces (dropWhile isWhiteSpace s)" by (rule okSpaces_dropWhile)
  moreover obtain w where "dropWhile isWhiteSpace s = trim s @ w"
    using trim_decompose by blast
  ultimately show ?thesis by (simp add: okSpaces_prefix)
qed

lemma replacements_wordy:
  "\<forall>(x, r) \<in> set replacements. wordy x \<and> wordy r \<and> lowered r \<and> length x \<le> 2 \<and> 4 \<le> length r"
  by (simp add: replacements_def wordy_def lowered_def isWordChar_def toLowerCaseChar_def)

text \<open>
  Claim C10. \<open>normalizeCityName\<close> is idempotent: normalising a normalised name changes
  nothing. On a normalised name neither the table of abbreviations nor the collapsing
  of white space finds anything to replace.
\<close>

theorem normalizeCityName_idempotent:
  "normalizeCityName (normalizeCityName s) = normalizeCityName s
   \<and> applyReplacements replacements (normalizeCityName s) = normalizeCityName s
   \<and> collapseWhitespace (normalizeCityName s) = normalizeCityName s"
proof (cases "s = [] \<or> normalizeCityName s = []")
  case True
  then have "normalizeCityName s = []"
    by (auto simp: normalizeCityName_def)
  moreover have "applyReplacements replacements [] = []"
    by (simp add: applyReplacements_def replacements_def)
  ultimately show ?thesis
    by (simp add: normalizeCityName_def)
next
  case False
  let ?u = "applyReplacements replacements (toLowerCase (trim s))"
  let ?r = "trim (collapseWhitespace ?u)"
  have r: "normalizeCityName s = ?r"
    using False by (simp add: normalizeCityName_def)
  have t: "trim ?r = ?r" by (rule trim_trim)
  have "lowered ?u"
    using replacements_wordy by (intro lowered_applyReplacements lowered_toLowerCase) auto
  then have l: "toLowerCase ?r = ?r"
    by (intro toLowerCase_lowered lowered_trim lowered_collapseWhitespace)
  have "noSite y False ?r" if yin: "y \<in> fst ` set replacements" for y
  proof -
    obtain r0 where "(y, r0) \<in> set replacements"
      using yin by auto
    with replacements_wordy have wy: "wordy y" and ly: "length y \<le> 2"
      by blast+
    have "wordy x \<and> wordy r \<and> length y < length r" if xr: "(x, r) \<in> set replacements" for x r
    proof -
      from replacements_wordy xr have "wordy x \<and> wordy r \<and> 4 \<le> length r" by blast
      with ly show ?thesis by simp
    qed
    then have tab: "\<forall>(x, r) \<in> set replacements. wordy x \<and> wordy r \<and> length y < length r"
      by blast
    have "noSite y False ?u"
      by (rule noSite_applyReplacements [OF wy tab]) (simp add: yin)
    then have "noSite y False (collapseWhitespace ?u)"
      by (rule noSite_collapseWhitespace [OF wy])
    then show ?thesis
      by (rule noSite_trim)
  qed
  then have a: "applyReplacements replacements ?r = ?r"
    using replacements_wordy by (intro applyReplacements_id) force
  have c: "collapseWhitespace ?r = ?r"
    by (intro collapseWhitespace_okSpaces okSpaces_trim okSpaces_collapseWhitespace)
  have "normalizeCityName ?r = ?r"
    using False r by (simp add: normalizeCityName_def t l a c del: replaceAbbrev.simps)
  with r a c show ?thesis by simp
qed

section \<open>Properties of the status change\<close>

lemma sendOrderReady_effect:
  "sendOrderReady out w to n = (w', r) \<Longrightarrow>
     notify_calls w' = notify_calls w \<and> orders_table w' = orders_table w \<and> orders w' = orders w
     \<and> provider_requests w' =
         provider_requests w @ (if RESEND_API_KEY out \<noteq> None \<and> RESEND_API_KEY out \<noteq> Some []
                                then [(to, n)] else [])"
  by (auto simp: sendOrderReady_def falsy_def Let_def split: if_splits provider_reply.splits)

lemma notifyOrderReady_effect:
  assumes "notifyOrderReady out w email n = (w', r)" "trim email \<noteq> []"
  shows "notify_calls w' = notify_calls w \<and> orders_table w' = orders_table w \<and> orders w' = orders w
     \<and> provider_requests w' =
         provider_requests w @
           (if key_at_load out \<noteq> None \<and> key_at_load out \<noteq> Some []
               \<and> RESEND_API_KEY out \<noteq> None \<and> RESEND_API_KEY out \<noteq> Some []
            then [(trim email, n)] else [])"
proof (cases "mailModuleLoads out")
  case False
  with assms show ?thesis
    by (auto simp: notifyOrderReady_def mailModuleLoads_def falsy_def)
next
  case True
  with assms have "sendOrderReady out w (trim email) n = (w', r)"
    by (simp add: notifyOrderReady_def)
  from sendOrderReady_effect [OF this] True show ?thesis
    by (auto simp: mailModuleLoads_def falsy_def)
qed

text \<open>
  Claim C9. When the status of an order is set to ``ready'' and the update of the table
  reports no error, the page attempts the ready notice (it calls \<open>notifyOrderReady\<close>)
  exactly when the order has a customer email that is not blank, once and with the
  trimmed address; the request reaches the mail provider when, besides, the API key is
  set; and whatever becomes of the notice (the mail module not loading, no API key, a
  rejection by the provider, an exception), the row of the table and the rows of the
  page carry the status ``ready''.
\<close>

theorem ready_status_notifies_iff_email:
  assumes "\<not> update_error out"
    and "w' = setStatus out w orderId ''ready'' order"
  shows "notify_calls w' =
           notify_calls w @
             (if hasCustomerEmail order
              then [(trim (the (customer_email order)), location_name order)] else [])
       \<and> provider_requests w' =
           provider_requests w @
             (if hasCustomerEmail order
                 \<and> key_at_load out \<noteq> None \<and> key_at_load out \<noteq> Some []
                 \<and> RESEND_API_KEY out \<noteq> None \<and> RESEND_API_KEY out \<noteq> Some []
              then [(trim (the (customer_email order)), location_name order)] else [])
       \<and> orders_table w' =
           (if orderId \<in> dom (orders_table w) then (orders_table w)(orderId \<mapsto> ''ready'')
            else orders_table w)
       \<and> orders w' = map (\<lambda>row. if order_id row = orderId then row\<lparr>status := ''ready''\<rparr> else row) (orders w)"
proof (cases "hasCustomerEmail order")
  case False
  with assms show ?thesis
    by (simp add: setStatus_def Let_def)
next
  case True
  then obtain email where e: "customer_email order = Some email" "trim email \<noteq> []"
    by (auto simp: hasCustomerEmail_def split: option.splits)
  define w4 where "w4 = w\<lparr>updatingId := Some orderId,
               orders_table := (if orderId \<in> dom (orders_table w) then (orders_table w)(orderId \<mapsto> ''ready'')
                                else orders_table w),
               orders := map (\<lambda>row. if order_id row = orderId then row\<lparr>status := ''ready''\<rparr> else row) (orders w),
               notify_calls := notify_calls w @ [(trim email, location_name order)]\<rparr>"
  obtain w5 r where n: "notifyOrderReady out w4 (trim email) (location_name order) = (w5, r)"
    by (cases "notifyOrderReady out w4 (trim email) (location_name order)") blast
  have "setStatus out w orderId ''ready'' order =
          (case notifyOrderReady out w4 (trim email) (location_name order) of
             (w5, SendThrew) \<Rightarrow> w5 | (w5, _) \<Rightarrow> w5\<lparr>updatingId := None\<rparr>)"
    using assms(1) True e unfolding setStatus_def Let_def w4_def nullish_def by simp
  then have w': "w' = w5 \<or> w' = w5\<lparr>updatingId := None\<rparr>"
    using assms(2) n by (cases r) simp_all
  have "trim (trim email) \<noteq> []"
    using e by (simp add: trim_trim)
  from notifyOrderReady_effect [OF n this]
  have "notify_calls w5 = notify_calls w @ [(trim email, location_name order)]"
    "provider_requests w5 = provider_requests w @
           (if key_at_load out \<noteq> None \<and> key_at_load out \<noteq> Some []
               \<and> RESEND_API_KEY out \<noteq> None \<and> RESEND_API_KEY out \<noteq> Some []
            then [(trim email, location_name order)] else [])"
    "orders_table w5 = (if orderId \<in> dom (orders_table w) then (orders_table w)(orderId \<mapsto> ''ready'')
            else orders_table w)"
    "orders w5 = map (\<lambda>row. if order_id row = orderId then row\<lparr>status := ''ready''\<rparr> else row) (orders w)"
    by (simp_all add: w4_def trim_trim)
  with w' True e show ?thesis
    by auto
qed

theorem ready_status_notifies_iff_email_witness:
  "notify_calls (setStatus
      \<lparr>update_error = False, key_at_load = None, RESEND_API_KEY = None, provider = Delivered\<rparr>
      \<lparr>orders_table = [''o1'' \<mapsto> ''pending''],
        orders = [\<lparr>order_id = ''o1'', customer_email = Some '' pat@example.org '',
                   status = ''pending'', location_name = ''Parish Hall''\<rparr>],
        updatingId = None, notify_calls = [], provider_requests = [], console = []\<rparr>
      ''o1'' ''ready''
      \<lparr>order_id = ''o1'', customer_email = Some '' pat@example.org '',
        status = ''pending'', location_name = ''Parish Hall''\<rparr>)
    = [(''pat@example.org'', ''Parish Hall'')]
   \<and> provider_requests (setStatus
      \<lparr>update_error = False, key_at_load = None, RESEND_API_KEY = None, provider = Delivered\<rparr>
      \<lparr>orders_table = [''o1'' \<mapsto> ''pending''],
        orders = [\<lparr>order_id = ''o1'', customer_email = Some '' pat@example.org '',
                   status = ''pending'', location_name = ''Parish Hall''\<rparr>],
        updatingId = None, notify_calls = [], provider_requests = [], console = []\<rparr>
      ''o1'' ''ready''
      \<lparr>order_id = ''o1'', customer_email = Some '' pat@example.org '',
        status = ''pending'', location_name = ''Parish Hall''\<rparr>)
    = []
   \<and> orders_table (setStatus
      \<lparr>update_error = False, key_at_load = None, RESEND_API_KEY = None, provider = Delivered\<rparr>
      \<lparr>orders_table = [''o1'' \<mapsto> ''pending''],
        orders = [\<lparr>order_id = ''o1'', customer_email = Some '' pat@example.org '',
                   status = ''pending'', location_name = ''Parish Hall''\<rparr>],
        updatingId = None, notify_calls = [], provider_requests = [], console = []\<rparr>
      ''o1'' ''ready''
      \<lparr>order_id = ''o1'', customer_email = Some '' pat@example.org '',
        status = ''pending'', location_name = ''Parish Hall''\<rparr>) ''o1''
    = Some ''ready''
   \<and> provider_requests (setStatus
      \<lparr>update_error = False, key_at_load = Some ''re_key'', RESEND_API_KEY = Some ''re_key'',
        provider = Rejected ''bounced''\<rparr>
      \<lparr>orders_table = [''o1'' \<mapsto> ''pending''],
        orders = [\<lparr>order_id = ''o1'', customer_email = Some '' pat@example.org '',
                   status = ''pending'', location_name = ''Parish Hall''\<rparr>],
        updatingId = None, notify_calls = [], provider_requests = [], console = []\<rparr>
      ''o1'' ''ready''
      \<lparr>order_id = ''o1'', customer_email = Some '' pat@example.org '',
        status = ''pending'', location_name = ''Parish Hall''\<rparr>)
    = [(''pat@example.org'', ''Parish Hall'')]
   \<and> orders_table (setStatus
      \<lparr>update_error = False, key_at_load = Some ''re_key'', RESEND_API_KEY = Some ''re_key'',
        provider = Rejected ''bounced''\<rparr>
      \<lparr>orders_table = [''o1'' \<mapsto> ''pending''],
        orders = [\<lparr>order_id = ''o1'', customer_email = Some '' pat@example.org '',
                   status = ''pending'', location_name = ''Parish Hall''\<rparr>],
        updatingId = None, notify_calls = [], provider_requests = [], console = []\<rparr>
      ''o1'' ''ready''
      \<lparr>order_id = ''o1'', customer_email = Some '' pat@example.org '',
        status = ''pending'', location_name = ''Parish Hall''\<rparr>) ''o1''
    = Some ''ready''"
proof -
  let ?w = "\<lparr>orders_table = [''o1'' \<mapsto> ''pending''],
        orders = [\<lparr>order_id = ''o1'', customer_email = Some '' pat@example.org '',
                   status = ''pending'', location_name = ''Parish Hall''\<rparr>],
        updatingId = None, notify_calls = [], provider_requests = [], console = []\<rparr>"
  let ?order = "\<lparr>order_id = ''o1'', customer_email = Some '' pat@example.org '',
        status = ''pending'', location_name = ''Parish Hall''\<rparr>"
  let ?none = "\<lparr>update_error = False, key_at_load = None, RESEND_API_KEY = None, provider = Delivered\<rparr>"
  let ?key = "\<lparr>update_error = False, key_at_load = Some ''re_key'', RESEND_API_KEY = Some ''re_key'',
        provider = Rejected ''bounced''\<rparr>"
  have t: "trim '' pat@example.org '' = ''pat@example.org''"
    by (simp add: trim_def isWhiteSpace_def)
  then have h: "hasCustomerEmail ?order"
    by (simp add: hasCustomerEmail_def)
  from ready_status_notifies_iff_email [of ?none "setStatus ?none ?w ''o1'' ''ready'' ?order" ?w "''o1''" ?order]
    ready_status_notifies_iff_email [of ?key "setStatus ?key ?w ''o1'' ''ready'' ?order" ?w "''o1''" ?order]
    h t
  show ?thesis by simp
qed

end
